theory Spec2Isabelle
  imports Complex_Main
begin

section \<open>Free Form Deformation: the data model\<close>

text \<open>
  The arrays of the program hold IEEE doubles; the development reads them as real numbers,
  so every equation below is an equation of exact arithmetic. A row of a
  \<open>(numPoints, 3)\<close> array is a triple, a point cloud is the list of its rows, and a
  three-dimensional array is its shape with its entries.
\<close>

type_synonym point = "real \<times> real \<times> real"

type_synonym affine_map = "point \<Rightarrow> point"

datatype error = IndexError | AffineFitError | LinAlgError | TypeError

record array3 =
  shape :: "nat \<times> nat \<times> nat"
  entries :: "nat \<Rightarrow> nat \<Rightarrow> nat \<Rightarrow> real"

record ffd_parameters =
  origin_box :: point
  position_vertex_1 :: point
  position_vertex_2 :: point
  position_vertex_3 :: point
  array_mu_x :: array3
  array_mu_y :: array3
  array_mu_z :: array3

record FFD =
  parameters :: ffd_parameters
  original_mesh_points :: "point list"

subsection \<open>Array operations used by \<open>perform\<close>\<close>

text \<open>Row-wise addition and subtraction of a point (numpy broadcasting of a 3-vector).\<close>

definition padd :: "point \<Rightarrow> point \<Rightarrow> point" where
  "padd p q = (case p of (a, b, c) \<Rightarrow> case q of (d, e, f) \<Rightarrow> (a + d, b + e, c + f))"

definition psub :: "point \<Rightarrow> point \<Rightarrow> point" where
  "psub p q = (case p of (a, b, c) \<Rightarrow> case q of (d, e, f) \<Rightarrow> (a - d, b - e, c - f))"

text \<open>The three columns \<open>a[:, 0]\<close>, \<open>a[:, 1]\<close>, \<open>a[:, 2]\<close> of a point array.\<close>

definition column :: "nat \<Rightarrow> point list \<Rightarrow> real list" where
  "column c a = map (\<lambda>p. case p of (x, y, z) \<Rightarrow> if c = 0 then x else if c = 1 then y else z) a"

text \<open>\<open>np.power(v, n)\<close>, \<open>np.multiply(v, w)\<close>, \<open>c * v\<close> and \<open>1 - v\<close> on vectors.\<close>

definition np_power :: "real list \<Rightarrow> nat \<Rightarrow> real list" where
  "np_power v n = map (\<lambda>t. t ^ n) v"

definition np_multiply :: "real list \<Rightarrow> real list \<Rightarrow> real list" where
  "np_multiply v w = map2 (\<lambda>a b. a * b) v w"

definition scale :: "real \<Rightarrow> real list \<Rightarrow> real list" where
  "scale c v = map (\<lambda>a. c * a) v"

definition one_minus :: "real list \<Rightarrow> real list" where
  "one_minus v = map (\<lambda>t. 1 - t) v"

text \<open>\<open>special.binom(n, k)\<close> at natural arguments.\<close>

definition binom :: "nat \<Rightarrow> nat \<Rightarrow> real" where
  "binom n k = real (n choose k)"

text \<open>\<open>a[:, c] += v\<close> on a point array, for each of the three columns.\<close>

definition add_to_column :: "nat \<Rightarrow> point list \<Rightarrow> real list \<Rightarrow> point list" where
  "add_to_column c a v =
     map2 (\<lambda>p d. case p of (x, y, z) \<Rightarrow>
             if c = 0 then (x + d, y, z) else if c = 1 then (x, y + d, z) else (x, y, z + d)) a v"

text \<open>\<open>a[i, j, k]\<close> with indices from \<open>range\<close>: out of the array's shape it raises.\<close>

definition getitem3 :: "array3 \<Rightarrow> nat \<Rightarrow> nat \<Rightarrow> nat \<Rightarrow> error + real" where
  "getitem3 a i j k =
     (case shape a of (n, m, t) \<Rightarrow>
        if i < n \<and> j < m \<and> k < t then Inr (entries a i j k) else Inl IndexError)"

text \<open>A \<open>for\<close> loop over a range whose body may raise: the first error ends the loop.\<close>

fun for_range :: "nat list \<Rightarrow> (nat \<Rightarrow> 's \<Rightarrow> error + 's) \<Rightarrow> 's \<Rightarrow> error + 's" where
  "for_range [] body s = Inr s"
| "for_range (i # rest) body s =
     (case body i s of Inl e \<Rightarrow> Inl e | Inr s' \<Rightarrow> for_range rest body s')"

subsection \<open>\<open>FFD._transform_points\<close>\<close>

text \<open>
  The loop writes row \<open>i\<close> of a zero array of the input's shape with the image of row
  \<open>i\<close> of the input.
\<close>

definition transform_points :: "point list \<Rightarrow> affine_map \<Rightarrow> point list" where
  "transform_points original_points transformation =
     (let n_rows_mesh = length original_points;
          modified_points = replicate n_rows_mesh (0, 0, 0)
      in fold (\<lambda>i modified. modified[i := transformation (original_points ! i)])
           [0..<n_rows_mesh] modified_points)"

subsection \<open>\<open>FFD.perform\<close>\<close>

text \<open>The three loops that fill the Bernstein matrices, one column per index \<open>i\<close>.\<close>

definition bernstein_columns :: "nat \<Rightarrow> real list \<Rightarrow> real list list" where
  "bernstein_columns dim_mu coord =
     map (\<lambda>i. let aux1 = np_power (one_minus coord) (dim_mu - 1 - i);
                  aux2 = np_power coord i
              in scale (binom (dim_mu - 1) i) (np_multiply aux1 aux2))
       [0..<dim_mu]"

text \<open>The body of the triple loop over the control points.\<close>

definition accumulate :: "ffd_parameters \<Rightarrow> real list list \<Rightarrow> real list list \<Rightarrow> real list list \<Rightarrow>
    nat \<Rightarrow> nat \<Rightarrow> nat \<Rightarrow> point list \<Rightarrow> error + point list" where
  "accumulate P bernstein_x bernstein_y bernstein_z i j k shift_mesh_points =
     (let aux = np_multiply (bernstein_x ! i) (np_multiply (bernstein_y ! j) (bernstein_z ! k))
      in (case getitem3 (array_mu_x P) i j k of
            Inl e \<Rightarrow> Inl e
          | Inr mu_x \<Rightarrow>
           (case getitem3 (array_mu_y P) i j k of
              Inl e \<Rightarrow> Inl e
            | Inr mu_y \<Rightarrow>
             (case getitem3 (array_mu_z P) i j k of
                Inl e \<Rightarrow> Inl e
              | Inr mu_z \<Rightarrow>
                 (let aux_x = scale mu_x aux;
                      aux_y = scale mu_y aux;
                      aux_z = scale mu_z aux
                  in Inr (add_to_column 2
                            (add_to_column 1 (add_to_column 0 shift_mesh_points aux_x) aux_y)
                            aux_z))))))"

text \<open>The test of the containment loop on one row of the reference-frame points.\<close>

definition outside :: "point \<Rightarrow> bool" where
  "outside r = (case r of (x, y, z) \<Rightarrow> x < 0 \<or> y < 0 \<or> z < 0 \<or> x > 1 \<or> y > 1 \<or> z > 1)"

definition split_inside_outside :: "point list \<Rightarrow> point list \<Rightarrow> point list" where
  "split_inside_outside reference_frame_mesh_points shift_mesh_points =
     fold (\<lambda>i shift. if outside (reference_frame_mesh_points ! i)
                      then shift[i := (0, 0, 0)] else shift)
       [0..<length reference_frame_mesh_points] shift_mesh_points"

text \<open>The two tetrahedra handed to \<open>affine_points_fit\<close>.\<close>

definition fisical_frame :: "ffd_parameters \<Rightarrow> point list" where
  "fisical_frame P =
     (let translation = origin_box P
      in [psub (position_vertex_1 P) translation,
          psub (position_vertex_2 P) translation,
          psub (position_vertex_3 P) translation,
          (0, 0, 0)])"

definition reference_frame :: "point list" where
  "reference_frame = [(1, 0, 0), (0, 1, 0), (0, 0, 1), (0, 0, 0)]"

text \<open>
  \<open>affine_points_fit\<close> belongs to another module; \<open>perform\<close> takes it as a parameter. It
  returns the fitted map or raises, and what it raises propagates.
\<close>

definition perform :: "(point list \<Rightarrow> point list \<Rightarrow> error + affine_map) \<Rightarrow> FFD \<Rightarrow> error + point list" where
  "perform affine_points_fit self =
     (let P = parameters self;
          n_rows_mesh = length (original_mesh_points self);
          translation = origin_box P
      in (case affine_points_fit (fisical_frame P) reference_frame of
            Inl e \<Rightarrow> Inl e
          | Inr transformation \<Rightarrow>
           (case affine_points_fit reference_frame (fisical_frame P) of
              Inl e \<Rightarrow> Inl e
            | Inr inverse_transformation \<Rightarrow>
             (case shape (array_mu_x P) of (dim_n_mu, dim_m_mu, dim_t_mu) \<Rightarrow>
               (let shift_mesh_points = replicate n_rows_mesh (0, 0, 0);
                    reference_frame_mesh_points =
                      transform_points
                        (map (\<lambda>p. psub p translation) (original_mesh_points self))
                        transformation;
                    bernstein_x = bernstein_columns dim_n_mu (column 0 reference_frame_mesh_points);
                    bernstein_y = bernstein_columns dim_m_mu (column 1 reference_frame_mesh_points);
                    bernstein_z = bernstein_columns dim_t_mu (column 2 reference_frame_mesh_points)
                in (case for_range [0..<dim_n_mu] (\<lambda>i.
                           for_range [0..<dim_m_mu] (\<lambda>j.
                             for_range [0..<dim_t_mu] (\<lambda>k.
                               accumulate P bernstein_x bernstein_y bernstein_z i j k)))
                           shift_mesh_points of
                      Inl e \<Rightarrow> Inl e
                    | Inr shift \<Rightarrow>
                        Inr (map (\<lambda>p. padd p translation)
                               (transform_points
                                  (map2 padd
                                     (split_inside_outside reference_frame_mesh_points shift)
                                     reference_frame_mesh_points)
                                  inverse_transformation))))))))"


section \<open>The deformation of one point, as the specification words it\<close>

text \<open>
  The Bernstein basis of degree \<open>d - 1\<close>, the tensor-product shift of a reference-frame
  point, and the six steps of the algorithm on a single point.
\<close>

definition bernstein :: "nat \<Rightarrow> nat \<Rightarrow> real \<Rightarrow> real" where
  "bernstein d i t = real ((d - 1) choose i) * ((1 - t) ^ (d - 1 - i) * t ^ i)"

definition weight :: "nat \<times> nat \<times> nat \<Rightarrow> point \<Rightarrow> nat \<Rightarrow> nat \<Rightarrow> nat \<Rightarrow> real" where
  "weight dims r i j k =
     (case dims of (nx, ny, nz) \<Rightarrow> case r of (x, y, z) \<Rightarrow>
        bernstein nx i x * (bernstein ny j y * bernstein nz k z))"

definition spec_shift_component :: "nat \<times> nat \<times> nat \<Rightarrow> array3 \<Rightarrow> point \<Rightarrow> real" where
  "spec_shift_component dims mu r =
     (case dims of (nx, ny, nz) \<Rightarrow>
        (\<Sum>i\<leftarrow>[0..<nx]. \<Sum>j\<leftarrow>[0..<ny]. \<Sum>k\<leftarrow>[0..<nz]. weight dims r i j k * entries mu i j k))"

definition spec_shift :: "ffd_parameters \<Rightarrow> point \<Rightarrow> point" where
  "spec_shift P r =
     (let dims = shape (array_mu_x P)
      in (spec_shift_component dims (array_mu_x P) r,
          spec_shift_component dims (array_mu_y P) r,
          spec_shift_component dims (array_mu_z P) r))"

definition spec_deform_point :: "affine_map \<Rightarrow> affine_map \<Rightarrow> ffd_parameters \<Rightarrow> point \<Rightarrow> point" where
  "spec_deform_point T Tinv P p =
     (let r = T (psub p (origin_box P));
          shift = (if outside r then (0, 0, 0) else spec_shift P r)
      in padd (Tinv (padd shift r)) (origin_box P))"

section \<open>Volume-constrained deformation: \<open>VFFD.__call__\<close>\<close>

text \<open>
  The object of \<open>VFFD.__call__\<close>: the axis weights, the controlled indices, the weight
  matrix, the target value, and the displacement arrays \<open>array_mu_x\<close>, \<open>array_mu_y\<close>,
  \<open>array_mu_z\<close> that the base deformer reads and the corrector writes (kept abstract).
\<close>

type_synonym matrix = "real list list"

record 'p VFFD =
  vweight :: "real list"
  indices :: "int list"
  M :: matrix
  fixval :: real
  array_mu :: 'p

text \<open>\<open>np.eye(n)\<close>, and \<open>xs[i]\<close> at an index from \<open>range\<close>.\<close>

definition eye :: "nat \<Rightarrow> matrix" where
  "eye n = map (\<lambda>i. map (\<lambda>j. if i = j then 1 else 0) [0..<n]) [0..<n]"

definition getitem :: "'a list \<Rightarrow> nat \<Rightarrow> error + 'a" where
  "getitem xs i = (if i < length xs then Inr (xs ! i) else Inl IndexError)"

text \<open>
  The functional installed by \<open>__init__\<close>: the sum over the triangles of the determinant
  of the three vertices. A vertex index beyond the points raises.
\<close>

definition det3 :: "point \<Rightarrow> point \<Rightarrow> point \<Rightarrow> real" where
  "det3 a b c =
     (case a of (a1, a2, a3) \<Rightarrow> case b of (b1, b2, b3) \<Rightarrow> case c of (c1, c2, c3) \<Rightarrow>
        a1 * (b2 * c3 - b3 * c2) - a2 * (b1 * c3 - b3 * c1) + a3 * (b1 * c2 - b2 * c1))"

fun volume :: "(nat \<times> nat \<times> nat) list \<Rightarrow> point list \<Rightarrow> error + real" where
  "volume [] x = Inr 0"
| "volume ((a, b, c) # triangles) x =
     (if a < length x \<and> b < length x \<and> c < length x
      then (case volume triangles x of
              Inl e \<Rightarrow> Inl e
            | Inr rest \<Rightarrow> Inr (det3 (x ! a) (x ! b) (x ! c) + rest))
      else Inl IndexError)"

text \<open>\<open>np.abs(w) / np.sum(np.abs(w))\<close>.\<close>

definition normalized :: "real list \<Rightarrow> real list" where
  "normalized w = map (\<lambda>a. \<bar>a\<bar> / sum_list (map abs w)) w"

text \<open>
  Three collaborators are parameters: \<open>ffd\<close> is the base deformation \<open>self.ffd\<close>, reading
  the displacement arrays; \<open>func\<close> is \<open>self.fun\<close>; \<open>CFFD_call\<close> is the corrector
  \<open>super().__call__\<close>, which reads the indices, the weight matrix and the target, writes
  the displacement arrays and returns the deformed points. Each may raise.

  The body of the loop over the three axes:
\<close>

definition axis_pass ::
  "('p \<Rightarrow> point list \<Rightarrow> error + point list) \<Rightarrow> (point list \<Rightarrow> error + real) \<Rightarrow>
   (int list \<Rightarrow> matrix \<Rightarrow> real \<Rightarrow> 'p \<Rightarrow> point list \<Rightarrow> error + point list \<times> 'p) \<Rightarrow>
   real \<Rightarrow> int list list \<Rightarrow> point list \<Rightarrow> nat \<Rightarrow> 'p VFFD \<Rightarrow> error + 'p VFFD" where
  "axis_pass ffd func CFFD_call diffvolume indexes src_pts i self =
     (let self1 = self\<lparr>indices := indexes ! i\<rparr>;
          self2 = self1\<lparr>M := eye (length (indices self1))\<rparr>
      in (case ffd (array_mu self2) src_pts of
            Inl e \<Rightarrow> Inl e
          | Inr deformed \<Rightarrow>
           (case func deformed of
              Inl e \<Rightarrow> Inl e
            | Inr vol \<Rightarrow>
             (case getitem (vweight self2) i of
                Inl e \<Rightarrow> Inl e
              | Inr w \<Rightarrow>
               (let self3 = self2\<lparr>fixval := vol + w * diffvolume\<rparr>
                in (case CFFD_call (indices self3) (M self3) (fixval self3)
                           (array_mu self3) src_pts of
                      Inl e \<Rightarrow> Inl e
                    | Inr (_, mu) \<Rightarrow> Inr (self3\<lparr>array_mu := mu\<rparr>)))))))"

text \<open>\<open>VFFD.__call__\<close>: the returned points and the object as the call leaves it.\<close>

definition VFFD_call ::
  "('p \<Rightarrow> point list \<Rightarrow> error + point list) \<Rightarrow> (point list \<Rightarrow> error + real) \<Rightarrow>
   (int list \<Rightarrow> matrix \<Rightarrow> real \<Rightarrow> 'p \<Rightarrow> point list \<Rightarrow> error + point list \<times> 'p) \<Rightarrow>
   'p VFFD \<Rightarrow> point list \<Rightarrow> error + point list \<times> 'p VFFD" where
  "VFFD_call ffd func CFFD_call self src_pts =
     (let self1 = self\<lparr>vweight := normalized (vweight self)\<rparr>;
          indices_bak = indices self1;
          indices_x = filter (\<lambda>n. n mod 3 = 0) (indices self1);
          indices_y = filter (\<lambda>n. n mod 3 = 1) (indices self1);
          indices_z = filter (\<lambda>n. n mod 3 = 2) (indices self1);
          indexes = [indices_x, indices_y, indices_z]
      in (case ffd (array_mu self1) src_pts of
            Inl e \<Rightarrow> Inl e
          | Inr deformed \<Rightarrow>
           (case func deformed of
              Inl e \<Rightarrow> Inl e
            | Inr vol \<Rightarrow>
             (let diffvolume = fixval self1 - vol
              in (case for_range [0..<3]
                         (axis_pass ffd func CFFD_call diffvolume indexes src_pts) self1 of
                    Inl e \<Rightarrow> Inl e
                  | Inr self2 \<Rightarrow>
                     (case CFFD_call (indices self2) (M self2) (fixval self2)
                             (array_mu self2) src_pts of
                        Inl e \<Rightarrow> Inl e
                      | Inr (tmp, mu) \<Rightarrow>
                          Inr (tmp, self2\<lparr>array_mu := mu, indices := indices_bak\<rparr>)))))))"

section \<open>\<open>FFD.perform\<close> over a store of arrays\<close>

text \<open>
  A numpy array is a mutable object, and \<open>perform\<close> reads its inputs through references. Here
  every array that the code writes into, passes to \<open>_transform_points\<close> or returns is a cell
  of a store, addressed by its position. \<open>np.zeros\<close> and the arithmetic of two arrays
  (\<open>a - b\<close>, \<open>a + b\<close>) make a new array: a cell appended to the store. An indexed assignment
  or an in-place addition writes into the cell of its target. The temporaries \<open>aux1\<close>,
  \<open>aux2\<close>, \<open>aux\<close>, \<open>aux_x\<close>, \<open>aux_y\<close>, \<open>aux_z\<close> and the two frames are new arrays that are only
  read, so they are values. \<open>affine_points_fit\<close> receives the two frames and the fitted maps
  receive rows of arrays made inside \<open>perform\<close>; none of them is handed an input array.
\<close>

text \<open>
  The kinds of array: a point array held by rows, a Bernstein matrix held by columns, a
  displacement array and a 3-vector.
\<close>

datatype cell = Points "point list" | Columns "real list list" | Array3 array3 | Vector point

type_synonym heap = "cell list"

text \<open>
  The objects hold references: an attribute that is an array is the address of its cell.
  \<open>perform\<close> assigns no attribute of \<open>self\<close> or of \<open>self.parameters\<close>, so the two objects are
  arguments only and the call returns neither.
\<close>

record ffd_parameters_ref =
  origin_box_ref :: nat
  position_vertex_1_ref :: nat
  position_vertex_2_ref :: nat
  position_vertex_3_ref :: nat
  array_mu_x_ref :: nat
  array_mu_y_ref :: nat
  array_mu_z_ref :: nat

record FFD_ref =
  parameters_ref :: ffd_parameters_ref
  original_mesh_points_ref :: nat

text \<open>Sequencing of steps that may raise.\<close>

definition bind :: "error + 'a \<Rightarrow> ('a \<Rightarrow> error + 'b) \<Rightarrow> error + 'b" where
  "bind m f = (case m of Inl e \<Rightarrow> Inl e | Inr x \<Rightarrow> f x)"

text \<open>A new array takes the next free address; the cells before it stay as they are.\<close>

definition alloc :: "cell \<Rightarrow> heap \<Rightarrow> nat \<times> heap" where
  "alloc c h = (length h, h @ [c])"

text \<open>Reading an array through its address. A dangling address or an array of another kind
  raises.\<close>

definition read_points :: "heap \<Rightarrow> nat \<Rightarrow> error + point list" where
  "read_points h a =
     (if a < length h then (case h ! a of Points ps \<Rightarrow> Inr ps | _ \<Rightarrow> Inl TypeError)
      else Inl TypeError)"

definition read_columns :: "heap \<Rightarrow> nat \<Rightarrow> error + real list list" where
  "read_columns h a =
     (if a < length h then (case h ! a of Columns cs \<Rightarrow> Inr cs | _ \<Rightarrow> Inl TypeError)
      else Inl TypeError)"

definition read_array3 :: "heap \<Rightarrow> nat \<Rightarrow> error + array3" where
  "read_array3 h a =
     (if a < length h then (case h ! a of Array3 m \<Rightarrow> Inr m | _ \<Rightarrow> Inl TypeError)
      else Inl TypeError)"

definition read_vector :: "heap \<Rightarrow> nat \<Rightarrow> error + point" where
  "read_vector h a =
     (if a < length h then (case h ! a of Vector v \<Rightarrow> Inr v | _ \<Rightarrow> Inl TypeError)
      else Inl TypeError)"

text \<open>Writing into the array at an address: \<open>a[i, :] = v\<close>, \<open>a[:, i] = v\<close> and the three
  \<open>a[:, c] += v\<close> of the triple loop. An index out of the array raises.\<close>

definition modify :: "nat \<Rightarrow> (cell \<Rightarrow> error + cell) \<Rightarrow> heap \<Rightarrow> error + heap" where
  "modify a f h =
     (if a < length h then (case f (h ! a) of Inl e \<Rightarrow> Inl e | Inr c \<Rightarrow> Inr (h[a := c]))
      else Inl TypeError)"

definition set_row :: "nat \<Rightarrow> point \<Rightarrow> cell \<Rightarrow> error + cell" where
  "set_row i v c =
     (case c of
        Points ps \<Rightarrow> if i < length ps then Inr (Points (ps[i := v])) else Inl IndexError
      | _ \<Rightarrow> Inl TypeError)"

definition set_column :: "nat \<Rightarrow> real list \<Rightarrow> cell \<Rightarrow> error + cell" where
  "set_column i v c =
     (case c of
        Columns cs \<Rightarrow> if i < length cs then Inr (Columns (cs[i := v])) else Inl IndexError
      | _ \<Rightarrow> Inl TypeError)"

definition add_to_columns :: "real list \<Rightarrow> real list \<Rightarrow> real list \<Rightarrow> cell \<Rightarrow> error + cell" where
  "add_to_columns aux_x aux_y aux_z c =
     (case c of
        Points s \<Rightarrow>
          Inr (Points (add_to_column 2 (add_to_column 1 (add_to_column 0 s aux_x) aux_y) aux_z))
      | _ \<Rightarrow> Inl TypeError)"

text \<open>\<open>FFD._transform_points\<close>: \<open>np.zeros\<close> allocates \<open>modified_points\<close>; the loop reads row \<open>i\<close> of
  \<open>original_points\<close> and writes row \<open>i\<close> of \<open>modified_points\<close>; the address of \<open>modified_points\<close>
  is returned.\<close>

definition transform_points_heap :: "nat \<Rightarrow> affine_map \<Rightarrow> heap \<Rightarrow> error + nat \<times> heap" where
  "transform_points_heap original_points transformation h =
     bind (read_points h original_points) (\<lambda>pts.
       (case alloc (Points (replicate (length pts) (0, 0, 0))) h of (modified_points, h1) \<Rightarrow>
          bind (for_range [0..<length pts]
                  (\<lambda>i h'. bind (read_points h' original_points) (\<lambda>ps.
                           bind (getitem ps i) (\<lambda>single_point.
                             modify modified_points (set_row i (transformation single_point)) h')))
                  h1)
            (\<lambda>h2. Inr (modified_points, h2))))"

text \<open>One of the three loops that fill a Bernstein matrix, column by column.\<close>

definition bernstein_heap :: "nat \<Rightarrow> nat \<Rightarrow> nat \<Rightarrow> nat \<Rightarrow> heap \<Rightarrow> error + heap" where
  "bernstein_heap bernstein_a axis dim_mu reference_frame_mesh_points h =
     for_range [0..<dim_mu]
       (\<lambda>i h'. bind (read_points h' reference_frame_mesh_points) (\<lambda>r.
          (let aux1 = np_power (one_minus (column axis r)) (dim_mu - 1 - i);
               aux2 = np_power (column axis r) i
           in modify bernstein_a
                (set_column i (scale (binom (dim_mu - 1) i) (np_multiply aux1 aux2))) h')))
       h"

text \<open>The body of the triple loop: it reads the three matrices and the three displacement
  arrays and adds into \<open>shift_mesh_points\<close>.\<close>

definition accumulate_heap ::
  "ffd_parameters_ref \<Rightarrow> nat \<Rightarrow> nat \<Rightarrow> nat \<Rightarrow> nat \<Rightarrow> nat \<Rightarrow> nat \<Rightarrow> nat \<Rightarrow> heap \<Rightarrow> error + heap" where
  "accumulate_heap P bernstein_x bernstein_y bernstein_z shift_mesh_points i j k h =
     bind (read_columns h bernstein_x) (\<lambda>bx.
     bind (getitem bx i) (\<lambda>bx_i.
     bind (read_columns h bernstein_y) (\<lambda>by.
     bind (getitem by j) (\<lambda>by_j.
     bind (read_columns h bernstein_z) (\<lambda>bz.
     bind (getitem bz k) (\<lambda>bz_k.
     bind (read_array3 h (array_mu_x_ref P)) (\<lambda>array_mu_x.
     bind (getitem3 array_mu_x i j k) (\<lambda>mu_x.
     bind (read_array3 h (array_mu_y_ref P)) (\<lambda>array_mu_y.
     bind (getitem3 array_mu_y i j k) (\<lambda>mu_y.
     bind (read_array3 h (array_mu_z_ref P)) (\<lambda>array_mu_z.
     bind (getitem3 array_mu_z i j k) (\<lambda>mu_z.
       (let aux = np_multiply bx_i (np_multiply by_j bz_k)
        in modify shift_mesh_points
             (add_to_columns (scale mu_x aux) (scale mu_y aux) (scale mu_z aux)) h)))))))))))))"

text \<open>The containment loop.\<close>

definition split_heap :: "nat \<Rightarrow> nat \<Rightarrow> nat \<Rightarrow> heap \<Rightarrow> error + heap" where
  "split_heap reference_frame_mesh_points shift_mesh_points n_rows_mesh h =
     for_range [0..<n_rows_mesh]
       (\<lambda>i h'. bind (read_points h' reference_frame_mesh_points) (\<lambda>r.
                bind (getitem r i) (\<lambda>row.
                  if outside row then modify shift_mesh_points (set_row i (0, 0, 0)) h'
                  else Inr h')))
       h"

text \<open>The loops of \<open>perform\<close> in the order of the source.\<close>

definition deform_heap ::
  "ffd_parameters_ref \<Rightarrow> nat \<Rightarrow> nat \<times> nat \<times> nat \<Rightarrow> nat \<Rightarrow> nat \<Rightarrow> nat \<Rightarrow> nat \<Rightarrow> nat \<Rightarrow>
   heap \<Rightarrow> error + heap" where
  "deform_heap P n_rows_mesh dims bernstein_x bernstein_y bernstein_z shift_mesh_points
       reference_frame_mesh_points h =
     (case dims of (dim_n_mu, dim_m_mu, dim_t_mu) \<Rightarrow>
        bind (bernstein_heap bernstein_x 0 dim_n_mu reference_frame_mesh_points h) (\<lambda>h1.
        bind (bernstein_heap bernstein_y 1 dim_m_mu reference_frame_mesh_points h1) (\<lambda>h2.
        bind (bernstein_heap bernstein_z 2 dim_t_mu reference_frame_mesh_points h2) (\<lambda>h3.
        bind (for_range [0..<dim_n_mu] (\<lambda>i.
                for_range [0..<dim_m_mu] (\<lambda>j.
                  for_range [0..<dim_t_mu] (\<lambda>k.
                    accumulate_heap P bernstein_x bernstein_y bernstein_z
                      shift_mesh_points i j k)))
                h3) (\<lambda>h4.
        split_heap reference_frame_mesh_points shift_mesh_points n_rows_mesh h4)))))"

text \<open>The \<open>return\<close> statement: the sum of two arrays is a new array, \<open>_transform_points\<close>
  allocates its result, and adding \<open>translation\<close> gives the new array that is returned.\<close>

definition return_heap :: "nat \<Rightarrow> nat \<Rightarrow> nat \<Rightarrow> affine_map \<Rightarrow> heap \<Rightarrow> error + nat \<times> heap" where
  "return_heap translation shift_mesh_points reference_frame_mesh_points inverse_transformation h =
     bind (read_points h shift_mesh_points) (\<lambda>shift.
     bind (read_points h reference_frame_mesh_points) (\<lambda>ref.
       (case alloc (Points (map2 padd shift ref)) h of (moved, h1) \<Rightarrow>
          bind (transform_points_heap moved inverse_transformation h1) (\<lambda>(back, h2).
          bind (read_points h2 back) (\<lambda>physical.
          bind (read_vector h2 translation) (\<lambda>origin.
            Inr (alloc (Points (map (\<lambda>p. padd p origin) physical)) h2)))))))"

text \<open>The frame handed to \<open>affine_points_fit\<close>, from the vertices as the store holds them.\<close>

definition fisical_frame_heap :: "ffd_parameters_ref \<Rightarrow> heap \<Rightarrow> error + point list" where
  "fisical_frame_heap P h =
     bind (read_vector h (origin_box_ref P)) (\<lambda>translation.
     bind (read_vector h (position_vertex_1_ref P)) (\<lambda>v1.
     bind (read_vector h (position_vertex_2_ref P)) (\<lambda>v2.
     bind (read_vector h (position_vertex_3_ref P)) (\<lambda>v3.
       Inr [psub v1 translation, psub v2 translation, psub v3 translation, (0, 0, 0)]))))"

text \<open>The four \<open>np.zeros\<close> of the initialization.\<close>

definition allocate_heap :: "nat \<Rightarrow> nat \<times> nat \<times> nat \<Rightarrow> heap \<Rightarrow> (nat \<times> nat \<times> nat \<times> nat) \<times> heap" where
  "allocate_heap n_rows_mesh dims h =
     (case dims of (dim_n_mu, dim_m_mu, dim_t_mu) \<Rightarrow>
        (case alloc (Columns (replicate dim_n_mu (replicate n_rows_mesh 0))) h of
           (bernstein_x, h1) \<Rightarrow>
        (case alloc (Columns (replicate dim_m_mu (replicate n_rows_mesh 0))) h1 of
           (bernstein_y, h2) \<Rightarrow>
        (case alloc (Columns (replicate dim_t_mu (replicate n_rows_mesh 0))) h2 of
           (bernstein_z, h3) \<Rightarrow>
        (case alloc (Points (replicate n_rows_mesh (0, 0, 0))) h3 of
           (shift_mesh_points, h4) \<Rightarrow>
             ((bernstein_x, bernstein_y, bernstein_z, shift_mesh_points), h4))))))"

text \<open>\<open>self.original_mesh_points - translation\<close>: a new array.\<close>

definition translated_heap :: "nat \<Rightarrow> nat \<Rightarrow> heap \<Rightarrow> error + nat \<times> heap" where
  "translated_heap mesh_points translation h =
     bind (read_points h mesh_points) (\<lambda>mesh.
     bind (read_vector h translation) (\<lambda>origin.
       Inr (alloc (Points (map (\<lambda>p. psub p origin) mesh)) h)))"

text \<open>\<open>FFD.perform\<close> on the store: it returns the address of the result and the store as the
  call leaves it.\<close>

definition perform_heap ::
  "(point list \<Rightarrow> point list \<Rightarrow> error + affine_map) \<Rightarrow> FFD_ref \<Rightarrow> heap \<Rightarrow> error + nat \<times> heap" where
  "perform_heap affine_points_fit self h =
     (let P = parameters_ref self;
          translation = origin_box_ref P
      in bind (read_points h (original_mesh_points_ref self)) (\<lambda>mesh.
         bind (fisical_frame_heap P h) (\<lambda>fisical.
         bind (affine_points_fit fisical reference_frame) (\<lambda>transformation.
         bind (affine_points_fit reference_frame fisical) (\<lambda>inverse_transformation.
         bind (read_array3 h (array_mu_x_ref P)) (\<lambda>array_mu_x.
           (case allocate_heap (length mesh) (shape array_mu_x) h of
              ((bernstein_x, bernstein_y, bernstein_z, shift_mesh_points), h1) \<Rightarrow>
                bind (translated_heap (original_mesh_points_ref self) translation h1)
                  (\<lambda>(translated, h2).
                bind (transform_points_heap translated transformation h2)
                  (\<lambda>(reference_frame_mesh_points, h3).
                bind (deform_heap P (length mesh) (shape array_mu_x) bernstein_x bernstein_y
                        bernstein_z shift_mesh_points reference_frame_mesh_points h3)
                  (\<lambda>h4.
                return_heap translation shift_mesh_points reference_frame_mesh_points
                  inverse_transformation h4))))))))))"

section \<open>Auxiliary notions for the proofs\<close>

text \<open>
  The loop body with the three array reads already done, the three loops as plain folds, and
  the condition under which every read of an array succeeds on a given index range.
\<close>

definition accumulate_entries :: "ffd_parameters \<Rightarrow> real list list \<Rightarrow> real list list \<Rightarrow> real list list \<Rightarrow>
    nat \<Rightarrow> nat \<Rightarrow> nat \<Rightarrow> point list \<Rightarrow> point list" where
  "accumulate_entries P bernstein_x bernstein_y bernstein_z i j k shift_mesh_points =
     (let aux = np_multiply (bernstein_x ! i) (np_multiply (bernstein_y ! j) (bernstein_z ! k))
      in add_to_column 2
           (add_to_column 1
              (add_to_column 0 shift_mesh_points (scale (entries (array_mu_x P) i j k) aux))
              (scale (entries (array_mu_y P) i j k) aux))
           (scale (entries (array_mu_z P) i j k) aux))"

definition covers :: "array3 \<Rightarrow> nat \<times> nat \<times> nat \<Rightarrow> bool" where
  "covers a dims =
     (case shape a of (n, m, t) \<Rightarrow> case dims of (n', m', t') \<Rightarrow> n' \<le> n \<and> m' \<le> m \<and> t' \<le> t)"

definition shift_folds :: "ffd_parameters \<Rightarrow> real list list \<Rightarrow> real list list \<Rightarrow> real list list \<Rightarrow>
    nat \<times> nat \<times> nat \<Rightarrow> point list \<Rightarrow> point list" where
  "shift_folds P bx by bz dims s =
     (case dims of (nx, ny, nz) \<Rightarrow>
        fold (\<lambda>i. fold (\<lambda>j. fold (\<lambda>k. accumulate_entries P bx by bz i j k) [0..<nz]) [0..<ny])
          [0..<nx] s)"

text \<open>
  The object that the references of \<open>self\<close> denote in a store: the argument of the
  store-free \<open>perform\<close>.
\<close>

definition FFD_of :: "FFD_ref \<Rightarrow> heap \<Rightarrow> error + FFD" where
  "FFD_of self h =
     (let P = parameters_ref self
      in bind (read_vector h (origin_box_ref P)) (\<lambda>origin.
         bind (read_vector h (position_vertex_1_ref P)) (\<lambda>v1.
         bind (read_vector h (position_vertex_2_ref P)) (\<lambda>v2.
         bind (read_vector h (position_vertex_3_ref P)) (\<lambda>v3.
         bind (read_array3 h (array_mu_x_ref P)) (\<lambda>mu_x.
         bind (read_array3 h (array_mu_y_ref P)) (\<lambda>mu_y.
         bind (read_array3 h (array_mu_z_ref P)) (\<lambda>mu_z.
         bind (read_points h (original_mesh_points_ref self)) (\<lambda>mesh.
           Inr \<lparr>parameters =
                  \<lparr>origin_box = origin, position_vertex_1 = v1, position_vertex_2 = v2,
                   position_vertex_3 = v3, array_mu_x = mu_x, array_mu_y = mu_y,
                   array_mu_z = mu_z\<rparr>,
                original_mesh_points = mesh\<rparr>)))))))))"

text \<open>A store \<open>h'\<close> is at least as long as \<open>h\<close> and agrees with it on the first \<open>n\<close> cells.\<close>

definition keeps :: "nat \<Rightarrow> heap \<Rightarrow> heap \<Rightarrow> bool" where
  "keeps n h h' = (length h \<le> length h' \<and> take n h' = take n h)"

section \<open>Concrete inputs\<close>

text \<open>
  A box with origin \<open>(1, 0, 0)\<close> and unit edges along the axes, for which the fitted maps
  are the identity; a control grid of two points along \<open>x\<close> whose far point is displaced by
  one box length; three mesh points: one inside the box, one on its boundary, one outside.
\<close>

definition unit_fit :: "point list \<Rightarrow> point list \<Rightarrow> error + affine_map" where
  "unit_fit a b = Inr (\<lambda>p. p)"

definition zeros3 :: "nat \<times> nat \<times> nat \<Rightarrow> array3" where
  "zeros3 dims = \<lparr>shape = dims, entries = (\<lambda>i j k. 0)\<rparr>"

definition unit_box :: ffd_parameters where
  "unit_box = \<lparr>origin_box = (1, 0, 0),
               position_vertex_1 = (2, 0, 0),
               position_vertex_2 = (1, 1, 0),
               position_vertex_3 = (1, 0, 1),
               array_mu_x = \<lparr>shape = (2, 1, 1), entries = (\<lambda>i j k. if i = 1 then 1 else 0)\<rparr>,
               array_mu_y = zeros3 (2, 1, 1),
               array_mu_z = zeros3 (2, 1, 1)\<rparr>"

definition sample :: FFD where
  "sample = \<lparr>parameters = unit_box,
             original_mesh_points = [(3/2, 1/2, 1/2), (2, 0, 1/2), (3, 0, 0)]\<rparr>"

text \<open>
  Collaborators for \<open>VFFD.__call__\<close>: a deformation that shifts every point along \<open>x\<close> by
  the amount held in the displacement state, and a corrector that sets that amount so that
  the volume of the triangle \<open>(0, 1, 2)\<close> over the points \<open>toy_src\<close> meets the target. The
  corrector also logs, in the displacement state, the index set of each invocation.
\<close>

definition shift_x :: "real \<Rightarrow> point \<Rightarrow> point" where
  "shift_x a p = (case p of (x, y, z) \<Rightarrow> (x + a, y, z))"

definition toy_ffd :: "real \<times> int list list \<Rightarrow> point list \<Rightarrow> error + point list" where
  "toy_ffd mu pts = Inr (map (shift_x (fst mu)) pts)"

definition toy_corrector ::
  "int list \<Rightarrow> matrix \<Rightarrow> real \<Rightarrow> real \<times> int list list \<Rightarrow> point list \<Rightarrow>
   error + point list \<times> (real \<times> int list list)" where
  "toy_corrector idx W target mu src_pts =
     (if idx = [] then Inl LinAlgError
      else Inr (map (shift_x (target - 1)) src_pts, (target - 1, snd mu @ [idx])))"

definition toy_src :: "point list" where
  "toy_src = [(1, 0, 0), (0, 1, 0), (0, 0, 1)]"

definition toy :: "(real \<times> int list list) VFFD" where
  "toy = \<lparr>vweight = [1, -1, 2], indices = [0, 1, 2, 3, 4, 5], M = eye 6, fixval = 4,
          array_mu = (0, [])\<rparr>"

definition toy_after :: "(real \<times> int list list) VFFD" where
  "toy_after = \<lparr>vweight = [1/4, 1/4, 1/2], indices = [0, 1, 2, 3, 4, 5], M = eye 2, fixval = 4,
          array_mu = (3, [[0, 3], [1, 4], [2, 5], [2, 5]])\<rparr>"

text \<open>
  The box and the mesh points of \<open>sample\<close> in a store of eight cells, the object that refers to
  them, and the nine cells that \<open>perform\<close> allocates on them.
\<close>

definition sample_ref :: FFD_ref where
  "sample_ref = \<lparr>parameters_ref =
                   \<lparr>origin_box_ref = 0, position_vertex_1_ref = 1, position_vertex_2_ref = 2,
                    position_vertex_3_ref = 3, array_mu_x_ref = 4, array_mu_y_ref = 5,
                    array_mu_z_ref = 6\<rparr>,
                 original_mesh_points_ref = 7\<rparr>"

definition sample_heap :: heap where
  "sample_heap = [Vector (origin_box unit_box), Vector (position_vertex_1 unit_box),
                  Vector (position_vertex_2 unit_box), Vector (position_vertex_3 unit_box),
                  Array3 (array_mu_x unit_box), Array3 (array_mu_y unit_box),
                  Array3 (array_mu_z unit_box), Points (original_mesh_points sample)]"

definition sample_allocated :: heap where
  "sample_allocated = [Columns [[1/2, 0, -1], [1/2, 1, 2]], Columns [[1, 1, 1]], Columns [[1, 1, 1]],
                       Points [(1/2, 0, 0), (1, 0, 0), (0, 0, 0)],
                       Points [(1/2, 1/2, 1/2), (1, 0, 1/2), (2, 0, 0)],
                       Points [(1/2, 1/2, 1/2), (1, 0, 1/2), (2, 0, 0)],
                       Points [(1, 1/2, 1/2), (2, 0, 1/2), (2, 0, 0)],
                       Points [(1, 1/2, 1/2), (2, 0, 1/2), (2, 0, 0)],
                       Points [(2, 1/2, 1/2), (3, 0, 1/2), (3, 0, 0)]]"

section \<open>The loops of \<open>perform\<close> in closed form\<close>

lemma transform_points_fold:
  "k \<le> length pts \<Longrightarrow> length m = length pts \<Longrightarrow>
   fold (\<lambda>i modified. modified[i := T (pts ! i)]) [0..<k] m = map T (take k pts) @ drop k m"
proof (induction k)
  case 0
  then show ?case by simp
next
  case (Suc k)
  then have k: "k < length pts" by simp
  have "fold (\<lambda>i modified. modified[i := T (pts ! i)]) [0..<Suc k] m
        = (map T (take k pts) @ drop k m)[k := T (pts ! k)]"
    using Suc by simp
  also have "\<dots> = map T (take k pts) @ (drop k m)[0 := T (pts ! k)]"
    using k by (simp add: list_update_append)
  also have "(drop k m)[0 := T (pts ! k)] = T (pts ! k) # drop (Suc k) m"
    using k Suc.prems by (simp add: Cons_nth_drop_Suc[symmetric])
  also have "map T (take k pts) @ T (pts ! k) # drop (Suc k) m = map T (take (Suc k) pts) @ drop (Suc k) m"
    using k by (simp add: take_Suc_conv_app_nth)
  finally show ?case .
qed

lemma transform_points_map: "transform_points pts T = map T pts"
  unfolding transform_points_def Let_def
  using transform_points_fold[of "length pts" pts "replicate (length pts) (0,0,0)" T] by simp

lemma split_fold_length:
  "length (fold (\<lambda>i shift. if outside (ref ! i) then shift[i := (0, 0, 0)] else shift) xs s) = length s"
  by (induction xs arbitrary: s) auto

lemma split_fold_nth:
  "p < length s \<Longrightarrow> distinct xs \<Longrightarrow>
   fold (\<lambda>i shift. if outside (ref ! i) then shift[i := (0, 0, 0)] else shift) xs s ! p
     = (if p \<in> set xs \<and> outside (ref ! p) then (0, 0, 0) else s ! p)"
proof (induction xs arbitrary: s)
  case Nil
  then show ?case by simp
next
  case (Cons a xs)
  show ?case
  proof (cases "a = p")
    case True
    with Cons show ?thesis by (auto simp: nth_list_update)
  next
    case False
    with Cons show ?thesis by (auto simp: nth_list_update)
  qed
qed

lemma split_inside_outside_length: "length (split_inside_outside ref s) = length s"
  unfolding split_inside_outside_def by (rule split_fold_length)

lemma split_inside_outside_nth:
  "p < length s \<Longrightarrow> p < length ref \<Longrightarrow>
   split_inside_outside ref s ! p = (if outside (ref ! p) then (0, 0, 0) else s ! p)"
  unfolding split_inside_outside_def by (simp add: split_fold_nth)

lemma for_range_Inr_fold:
  "for_range xs body s = Inr s' \<Longrightarrow>
   (\<And>i s r. i \<in> set xs \<Longrightarrow> body i s = Inr r \<Longrightarrow> r = g i s) \<Longrightarrow> s' = fold g xs s"
proof (induction xs arbitrary: s)
  case Nil
  then show ?case by simp
next
  case (Cons a xs)
  from Cons.prems(1) obtain r where r: "body a s = Inr r" and rest: "for_range xs body r = Inr s'"
    by (auto split: sum.splits)
  have "r = g a s" using Cons.prems(2)[of a s r] r by simp
  moreover have "s' = fold g xs r" using Cons.IH[OF rest] Cons.prems(2) by simp
  ultimately show ?case by simp
qed

lemma for_range_total:
  "(\<And>i s. i \<in> set xs \<Longrightarrow> body i s = Inr (g i s)) \<Longrightarrow> for_range xs body s = Inr (fold g xs s)"
  by (induction xs arbitrary: s) auto

lemma accumulate_Inr:
  "accumulate P bx by bz i j k s = Inr r \<Longrightarrow> r = accumulate_entries P bx by bz i j k s"
  unfolding accumulate_def accumulate_entries_def Let_def
  by (auto simp: getitem3_def split: sum.splits prod.splits if_splits)

lemma getitem3_covers:
  "covers a (n, m, t) \<Longrightarrow> i < n \<Longrightarrow> j < m \<Longrightarrow> k < t \<Longrightarrow> getitem3 a i j k = Inr (entries a i j k)"
  unfolding covers_def getitem3_def by (auto split: prod.splits)

lemma accumulate_covers:
  assumes "covers (array_mu_x P) (n, m, t)" "covers (array_mu_y P) (n, m, t)"
    "covers (array_mu_z P) (n, m, t)" "i < n" "j < m" "k < t"
  shows "accumulate P bx by bz i j k s = Inr (accumulate_entries P bx by bz i j k s)"
  unfolding accumulate_def accumulate_entries_def Let_def
  using assms by (simp add: getitem3_covers)


lemma bernstein_columns_nth_length:
  "i < d \<Longrightarrow> length (bernstein_columns d coord ! i) = length coord"
  by (simp add: bernstein_columns_def Let_def scale_def np_multiply_def np_power_def one_minus_def)

lemma bernstein_columns_nth:
  "i < d \<Longrightarrow> p < length coord \<Longrightarrow> bernstein_columns d coord ! i ! p = bernstein d i (coord ! p)"
  by (simp add: bernstein_columns_def Let_def scale_def np_multiply_def np_power_def one_minus_def
      bernstein_def binom_def)

lemma accumulate_entries_length:
  assumes "length (bx ! i) = N" "length (by ! j) = N" "length (bz ! k) = N" "length s = N"
  shows "length (accumulate_entries P bx by bz i j k s) = N"
  using assms by (simp add: accumulate_entries_def Let_def add_to_column_def scale_def np_multiply_def)

lemma accumulate_entries_nth:
  assumes "length (bx ! i) = N" "length (by ! j) = N" "length (bz ! k) = N" "length s = N" "p < N"
  shows "accumulate_entries P bx by bz i j k s ! p =
         padd (s ! p)
           (bx ! i ! p * (by ! j ! p * bz ! k ! p) * entries (array_mu_x P) i j k,
            bx ! i ! p * (by ! j ! p * bz ! k ! p) * entries (array_mu_y P) i j k,
            bx ! i ! p * (by ! j ! p * bz ! k ! p) * entries (array_mu_z P) i j k)"
  using assms
  by (cases "s ! p")
     (simp add: accumulate_entries_def Let_def add_to_column_def scale_def np_multiply_def padd_def)

lemma fold_add_pointwise:
  assumes "\<And>k s. k \<in> set xs \<Longrightarrow> length s = N \<Longrightarrow> length (g k s) = N"
    and "\<And>k s. k \<in> set xs \<Longrightarrow> length s = N \<Longrightarrow> g k s ! p = padd (s ! p) (a k, b k, c k)"
    and "length s = N"
  shows "length (fold g xs s) = N \<and>
         fold g xs s ! p = padd (s ! p) (\<Sum>k\<leftarrow>xs. a k, \<Sum>k\<leftarrow>xs. b k, \<Sum>k\<leftarrow>xs. c k)"
  using assms
proof (induction xs arbitrary: s)
  case Nil
  then show ?case by (cases "s ! p") (simp add: padd_def)
next
  case (Cons x xs)
  have len: "length (g x s) = N" using Cons.prems by simp
  have step: "g x s ! p = padd (s ! p) (a x, b x, c x)" using Cons.prems by simp
  have IH: "length (fold g xs (g x s)) = N \<and>
        fold g xs (g x s) ! p = padd (g x s ! p) (\<Sum>k\<leftarrow>xs. a k, \<Sum>k\<leftarrow>xs. b k, \<Sum>k\<leftarrow>xs. c k)"
    using Cons.IH[of "g x s"] Cons.prems len by simp
  show ?case using IH step by (cases "s ! p") (simp add: padd_def)
qed

lemma loops_Inr:
  assumes "for_range [0..<nx] (\<lambda>i. for_range [0..<ny] (\<lambda>j. for_range [0..<nz] (\<lambda>k.
             accumulate P bx by bz i j k))) s = Inr r"
  shows "r = shift_folds P bx by bz (nx, ny, nz) s"
proof -
  have inner: "r' = fold (\<lambda>k. accumulate_entries P bx by bz i j k) [0..<nz] s'"
    if "for_range [0..<nz] (\<lambda>k. accumulate P bx by bz i j k) s' = Inr r'" for i j s' r'
    using that by (rule for_range_Inr_fold) (rule accumulate_Inr)
  have middle: "r' = fold (\<lambda>j. fold (\<lambda>k. accumulate_entries P bx by bz i j k) [0..<nz]) [0..<ny] s'"
    if "for_range [0..<ny] (\<lambda>j. for_range [0..<nz] (\<lambda>k. accumulate P bx by bz i j k)) s' = Inr r'"
    for i s' r'
    using that by (rule for_range_Inr_fold) (rule inner)
  show ?thesis
    unfolding shift_folds_def prod.case
    using assms by (rule for_range_Inr_fold) (rule middle)
qed

lemma loops_total:
  assumes "covers (array_mu_x P) (nx, ny, nz)" "covers (array_mu_y P) (nx, ny, nz)"
    "covers (array_mu_z P) (nx, ny, nz)"
  shows "for_range [0..<nx] (\<lambda>i. for_range [0..<ny] (\<lambda>j. for_range [0..<nz] (\<lambda>k.
             accumulate P bx by bz i j k))) s = Inr (shift_folds P bx by bz (nx, ny, nz) s)"
proof -
  have inner: "for_range [0..<nz] (\<lambda>k. accumulate P bx by bz i j k) s'
        = Inr (fold (\<lambda>k. accumulate_entries P bx by bz i j k) [0..<nz] s')"
    if "i < nx" "j < ny" for i j s'
    by (rule for_range_total) (simp add: accumulate_covers[OF assms that])
  have middle: "for_range [0..<ny] (\<lambda>j. for_range [0..<nz] (\<lambda>k. accumulate P bx by bz i j k)) s'
        = Inr (fold (\<lambda>j. fold (\<lambda>k. accumulate_entries P bx by bz i j k) [0..<nz]) [0..<ny] s')"
    if "i < nx" for i s'
    by (rule for_range_total) (simp add: inner[OF that])
  show ?thesis
    unfolding shift_folds_def prod.case
    by (rule for_range_total) (simp add: middle)
qed


lemma shift_folds_nth:
  assumes bx: "bx = bernstein_columns nx (column 0 ref)"
    and "by": "by = bernstein_columns ny (column 1 ref)"
    and bz: "bz = bernstein_columns nz (column 2 ref)"
    and s: "length s = length ref" and p: "p < length ref"
  shows "length (shift_folds P bx by bz (nx, ny, nz) s) = length ref \<and>
         shift_folds P bx by bz (nx, ny, nz) s ! p =
           padd (s ! p)
             (spec_shift_component (nx, ny, nz) (array_mu_x P) (ref ! p),
              spec_shift_component (nx, ny, nz) (array_mu_y P) (ref ! p),
              spec_shift_component (nx, ny, nz) (array_mu_z P) (ref ! p))"
proof -
  let ?N = "length ref"
  let ?w = "\<lambda>i j k. weight (nx, ny, nz) (ref ! p) i j k"
  have lx: "length (bx ! i) = ?N" if "i < nx" for i
    using that by (simp add: bx bernstein_columns_nth_length column_def)
  have ly: "length (by ! j) = ?N" if "j < ny" for j
    using that by (simp add: "by" bernstein_columns_nth_length column_def)
  have lz: "length (bz ! k) = ?N" if "k < nz" for k
    using that by (simp add: bz bernstein_columns_nth_length column_def)
  have w: "bx ! i ! p * (by ! j ! p * bz ! k ! p) = ?w i j k"
    if "i < nx" "j < ny" "k < nz" for i j k
    using that p
    by (cases "ref ! p")
       (simp add: bx "by" bz bernstein_columns_nth column_def weight_def)
  have inner: "length (fold (\<lambda>k. accumulate_entries P bx by bz i j k) [0..<nz] s') = ?N \<and>
      fold (\<lambda>k. accumulate_entries P bx by bz i j k) [0..<nz] s' ! p =
        padd (s' ! p)
          (\<Sum>k\<leftarrow>[0..<nz]. ?w i j k * entries (array_mu_x P) i j k,
           \<Sum>k\<leftarrow>[0..<nz]. ?w i j k * entries (array_mu_y P) i j k,
           \<Sum>k\<leftarrow>[0..<nz]. ?w i j k * entries (array_mu_z P) i j k)"
    if "i < nx" "j < ny" "length s' = ?N" for i j s'
  proof (rule fold_add_pointwise[where N = ?N])
    fix k and s'' :: "point list" assume k: "k \<in> set [0..<nz]" and l: "length s'' = ?N"
    from k have k': "k < nz" by simp
    show "length (accumulate_entries P bx by bz i j k s'') = ?N"
      by (rule accumulate_entries_length[OF lx[OF that(1)] ly[OF that(2)] lz[OF k'] l])
    show "accumulate_entries P bx by bz i j k s'' ! p =
        padd (s'' ! p)
          (?w i j k * entries (array_mu_x P) i j k,
           ?w i j k * entries (array_mu_y P) i j k,
           ?w i j k * entries (array_mu_z P) i j k)"
      using accumulate_entries_nth[OF lx[OF that(1)] ly[OF that(2)] lz[OF k'] l p, of P]
        w[OF that(1) that(2) k'] by simp
  qed (rule that)
  have middle: "length (fold (\<lambda>j. fold (\<lambda>k. accumulate_entries P bx by bz i j k) [0..<nz]) [0..<ny] s') = ?N \<and>
      fold (\<lambda>j. fold (\<lambda>k. accumulate_entries P bx by bz i j k) [0..<nz]) [0..<ny] s' ! p =
        padd (s' ! p)
          (\<Sum>j\<leftarrow>[0..<ny]. \<Sum>k\<leftarrow>[0..<nz]. ?w i j k * entries (array_mu_x P) i j k,
           \<Sum>j\<leftarrow>[0..<ny]. \<Sum>k\<leftarrow>[0..<nz]. ?w i j k * entries (array_mu_y P) i j k,
           \<Sum>j\<leftarrow>[0..<ny]. \<Sum>k\<leftarrow>[0..<nz]. ?w i j k * entries (array_mu_z P) i j k)"
    if "i < nx" "length s' = ?N" for i s'
  proof (rule fold_add_pointwise[where N = ?N])
    fix j and s'' :: "point list" assume j: "j \<in> set [0..<ny]" and l: "length s'' = ?N"
    from j have j': "j < ny" by simp
    show "length (fold (\<lambda>k. accumulate_entries P bx by bz i j k) [0..<nz] s'') = ?N"
      using inner[OF that(1) j' l] by simp
    show "fold (\<lambda>k. accumulate_entries P bx by bz i j k) [0..<nz] s'' ! p =
        padd (s'' ! p)
          (\<Sum>k\<leftarrow>[0..<nz]. ?w i j k * entries (array_mu_x P) i j k,
           \<Sum>k\<leftarrow>[0..<nz]. ?w i j k * entries (array_mu_y P) i j k,
           \<Sum>k\<leftarrow>[0..<nz]. ?w i j k * entries (array_mu_z P) i j k)"
      using inner[OF that(1) j' l] by simp
  qed (rule that)
  have outer: "length (fold (\<lambda>i. fold (\<lambda>j. fold (\<lambda>k. accumulate_entries P bx by bz i j k) [0..<nz]) [0..<ny]) [0..<nx] s) = ?N \<and>
      fold (\<lambda>i. fold (\<lambda>j. fold (\<lambda>k. accumulate_entries P bx by bz i j k) [0..<nz]) [0..<ny]) [0..<nx] s ! p =
        padd (s ! p)
          (\<Sum>i\<leftarrow>[0..<nx]. \<Sum>j\<leftarrow>[0..<ny]. \<Sum>k\<leftarrow>[0..<nz]. ?w i j k * entries (array_mu_x P) i j k,
           \<Sum>i\<leftarrow>[0..<nx]. \<Sum>j\<leftarrow>[0..<ny]. \<Sum>k\<leftarrow>[0..<nz]. ?w i j k * entries (array_mu_y P) i j k,
           \<Sum>i\<leftarrow>[0..<nx]. \<Sum>j\<leftarrow>[0..<ny]. \<Sum>k\<leftarrow>[0..<nz]. ?w i j k * entries (array_mu_z P) i j k)"
  proof (rule fold_add_pointwise[where N = ?N])
    fix i and s'' :: "point list" assume i: "i \<in> set [0..<nx]" and l: "length s'' = ?N"
    from i have i': "i < nx" by simp
    show "length (fold (\<lambda>j. fold (\<lambda>k. accumulate_entries P bx by bz i j k) [0..<nz]) [0..<ny] s'') = ?N"
      using middle[OF i' l] by simp
    show "fold (\<lambda>j. fold (\<lambda>k. accumulate_entries P bx by bz i j k) [0..<nz]) [0..<ny] s'' ! p =
        padd (s'' ! p)
          (\<Sum>j\<leftarrow>[0..<ny]. \<Sum>k\<leftarrow>[0..<nz]. ?w i j k * entries (array_mu_x P) i j k,
           \<Sum>j\<leftarrow>[0..<ny]. \<Sum>k\<leftarrow>[0..<nz]. ?w i j k * entries (array_mu_y P) i j k,
           \<Sum>j\<leftarrow>[0..<ny]. \<Sum>k\<leftarrow>[0..<nz]. ?w i j k * entries (array_mu_z P) i j k)"
      using middle[OF i' l] by simp
  qed (rule s)
  show ?thesis
    using outer by (simp add: shift_folds_def spec_shift_component_def)
qed

lemma covers_self: "covers a (shape a)"
  by (simp add: covers_def split: prod.splits)

lemma padd_zero: "padd (0, 0, 0) q = q"
  by (cases q) (simp add: padd_def)

lemma fold_length:
  assumes "\<And>k s. k \<in> set xs \<Longrightarrow> length s = N \<Longrightarrow> length (g k s) = N"
    and "length s = N"
  shows "length (fold g xs s) = N"
  using assms by (induction xs arbitrary: s) auto

lemma shift_folds_length:
  assumes bx: "bx = bernstein_columns nx (column 0 ref)"
    and "by": "by = bernstein_columns ny (column 1 ref)"
    and bz: "bz = bernstein_columns nz (column 2 ref)"
    and s: "length s = length ref"
  shows "length (shift_folds P bx by bz (nx, ny, nz) s) = length ref"
  unfolding shift_folds_def prod.case
proof (intro fold_length[where N = "length ref"] s)
  fix i j k and s' :: "point list"
  assume "i \<in> set [0..<nx]" "j \<in> set [0..<ny]" "k \<in> set [0..<nz]" "length s' = length ref"
  then show "length (accumulate_entries P bx by bz i j k s') = length ref"
    by (intro accumulate_entries_length)
       (simp_all add: bx "by" bz bernstein_columns_nth_length column_def)
qed

lemma deformed_points:
  assumes ref: "ref = map T (map (\<lambda>p. psub p (origin_box P)) pts)"
    and dims: "shape (array_mu_x P) = (nx, ny, nz)"
    and bx: "bx = bernstein_columns nx (column 0 ref)"
    and "by": "by = bernstein_columns ny (column 1 ref)"
    and bz: "bz = bernstein_columns nz (column 2 ref)"
  shows "map (\<lambda>p. padd p (origin_box P))
           (map Tinv
              (map2 padd
                 (split_inside_outside ref
                    (shift_folds P bx by bz (nx, ny, nz) (replicate (length pts) (0, 0, 0))))
                 ref))
         = map (spec_deform_point T Tinv P) pts"
proof (rule nth_equalityI)
  let ?s = "shift_folds P bx by bz (nx, ny, nz) (replicate (length pts) (0, 0, 0))"
  have lref: "length ref = length pts" by (simp add: ref)
  have ls: "length ?s = length ref"
    using shift_folds_length[OF bx "by" bz, of "replicate (length pts) (0, 0, 0)" P]
    by (simp add: lref)
  show "length (map (\<lambda>p. padd p (origin_box P))
           (map Tinv (map2 padd (split_inside_outside ref ?s) ref)))
        = length (map (spec_deform_point T Tinv P) pts)"
    by (simp add: split_inside_outside_length ls lref)
  fix p
  assume "p < length (map (\<lambda>p. padd p (origin_box P))
           (map Tinv (map2 padd (split_inside_outside ref ?s) ref)))"
  then have p: "p < length ref" by simp
  then have p': "p < length pts" by (simp add: lref)
  have sp: "?s ! p = spec_shift P (ref ! p)"
    using shift_folds_nth[OF bx "by" bz _ p, of "replicate (length pts) (0, 0, 0)" P] p'
    by (simp add: lref spec_shift_def Let_def dims padd_zero)
  have rp: "ref ! p = T (psub (pts ! p) (origin_box P))"
    using p' by (simp add: ref)
  show "map (\<lambda>p. padd p (origin_box P))
           (map Tinv (map2 padd (split_inside_outside ref ?s) ref)) ! p
        = map (spec_deform_point T Tinv P) pts ! p"
    using p p' ls
    by (simp add: split_inside_outside_length split_inside_outside_nth sp
        spec_deform_point_def Let_def rp[symmetric])
qed

lemma perform_Inr:
  assumes "perform affine_points_fit self = Inr out"
  shows "\<exists>T Tinv. affine_points_fit (fisical_frame (parameters self)) reference_frame = Inr T \<and>
           affine_points_fit reference_frame (fisical_frame (parameters self)) = Inr Tinv \<and>
           out = map (spec_deform_point T Tinv (parameters self)) (original_mesh_points self)"
proof -
  let ?P = "parameters self"
  obtain nx ny nz where dims: "shape (array_mu_x ?P) = (nx, ny, nz)"
    by (cases "shape (array_mu_x ?P)") auto
  from assms obtain T where T: "affine_points_fit (fisical_frame ?P) reference_frame = Inr T"
    unfolding perform_def Let_def by (auto split: sum.splits)
  from assms T obtain Tinv where
    Tinv: "affine_points_fit reference_frame (fisical_frame ?P) = Inr Tinv"
    unfolding perform_def Let_def by (auto split: sum.splits)
  let ?ref = "map T (map (\<lambda>p. psub p (origin_box ?P)) (original_mesh_points self))"
  let ?bx = "bernstein_columns nx (column 0 ?ref)"
  let ?by = "bernstein_columns ny (column 1 ?ref)"
  let ?bz = "bernstein_columns nz (column 2 ?ref)"
  let ?s0 = "replicate (length (original_mesh_points self)) (0, 0, 0) :: point list"
  from assms T Tinv dims obtain shift where
    loops: "for_range [0..<nx] (\<lambda>i. for_range [0..<ny] (\<lambda>j. for_range [0..<nz] (\<lambda>k.
              accumulate ?P ?bx ?by ?bz i j k))) ?s0 = Inr shift"
    and out: "out = map (\<lambda>p. padd p (origin_box ?P))
                (map Tinv (map2 padd (split_inside_outside ?ref shift) ?ref))"
    unfolding perform_def Let_def
    by (auto simp: transform_points_map split: sum.splits)
  have "shift = shift_folds ?P ?bx ?by ?bz (nx, ny, nz) ?s0"
    using loops by (rule loops_Inr)
  with out have "out = map (spec_deform_point T Tinv ?P) (original_mesh_points self)"
    using deformed_points[OF refl dims refl refl refl, where T = T and Tinv = Tinv and pts = "original_mesh_points self"]
    by simp
  with T Tinv show ?thesis by blast
qed

lemma perform_total:
  assumes T: "affine_points_fit (fisical_frame (parameters self)) reference_frame = Inr T"
    and Tinv: "affine_points_fit reference_frame (fisical_frame (parameters self)) = Inr Tinv"
    and cy: "covers (array_mu_y (parameters self)) (shape (array_mu_x (parameters self)))"
    and cz: "covers (array_mu_z (parameters self)) (shape (array_mu_x (parameters self)))"
  shows "perform affine_points_fit self
         = Inr (map (spec_deform_point T Tinv (parameters self)) (original_mesh_points self))"
proof -
  let ?P = "parameters self"
  obtain nx ny nz where dims: "shape (array_mu_x ?P) = (nx, ny, nz)"
    by (cases "shape (array_mu_x ?P)") auto
  let ?ref = "map T (map (\<lambda>p. psub p (origin_box ?P)) (original_mesh_points self))"
  let ?bx = "bernstein_columns nx (column 0 ?ref)"
  let ?by = "bernstein_columns ny (column 1 ?ref)"
  let ?bz = "bernstein_columns nz (column 2 ?ref)"
  let ?s0 = "replicate (length (original_mesh_points self)) (0, 0, 0) :: point list"
  have cx: "covers (array_mu_x ?P) (nx, ny, nz)"
    using covers_self[of "array_mu_x ?P"] by (simp add: dims)
  have loops: "for_range [0..<nx] (\<lambda>i. for_range [0..<ny] (\<lambda>j. for_range [0..<nz] (\<lambda>k.
              accumulate ?P ?bx ?by ?bz i j k))) ?s0
             = Inr (shift_folds ?P ?bx ?by ?bz (nx, ny, nz) ?s0)"
    using cy cz by (intro loops_total cx) (simp_all add: dims)
  show ?thesis
    unfolding perform_def Let_def transform_points_map T Tinv dims sum.case prod.case loops
    using deformed_points[OF refl dims refl refl refl, where T = T and Tinv = Tinv and pts = "original_mesh_points self"]
    by (simp only:)
qed

section \<open>Properties of \<open>perform\<close>\<close>

lemmas eval_defs = perform_def unit_fit_def sample_def unit_box_def zeros3_def
  fisical_frame_def reference_frame_def transform_points_def bernstein_columns_def
  accumulate_def getitem3_def split_inside_outside_def outside_def
  column_def np_power_def np_multiply_def scale_def one_minus_def binom_def add_to_column_def
  padd_def psub_def Let_def

lemma upt2: "[0..<2] = [0, 1]" "[0..<1] = [0]" "[0..<3] = [0, 1, 2]"
  by (simp_all add: upt_rec)

lemma sample_run: "perform unit_fit sample = Inr [(2, 1/2, 1/2), (3, 0, 1/2), (3, 0, 0)]"
  by (simp add: eval_defs upt2)

lemma padd_psub: "padd (psub p q) q = p"
  by (cases p, cases q) (simp add: padd_def psub_def)






text \<open>
  Claim C3. A point whose reference-frame coordinate is below 0 or above 1 on some axis
  comes back as the affine round trip of its input position, whatever the displacement
  arrays hold; when the two fitted maps are mutual inverses that is the input point itself.
\<close>

theorem containment_cutoff:
  assumes "perform affine_points_fit self = Inr out"
    and "affine_points_fit (fisical_frame (parameters self)) reference_frame = Inr T"
    and "affine_points_fit reference_frame (fisical_frame (parameters self)) = Inr Tinv"
    and "n < length (original_mesh_points self)"
    and "outside (T (psub (original_mesh_points self ! n) (origin_box (parameters self))))"
  shows "out ! n = padd (Tinv (T (psub (original_mesh_points self ! n) (origin_box (parameters self)))))
                     (origin_box (parameters self)) \<and>
         ((\<forall>q. Tinv (T q) = q) \<longrightarrow> out ! n = original_mesh_points self ! n)"
proof -
  from perform_Inr[OF assms(1)] assms(2,3)
  have "out = map (spec_deform_point T Tinv (parameters self)) (original_mesh_points self)"
    by auto
  with assms(4,5) have
    "out ! n = padd (Tinv (T (psub (original_mesh_points self ! n) (origin_box (parameters self)))))
                     (origin_box (parameters self))"
    by (simp add: spec_deform_point_def Let_def padd_zero)
  moreover have "padd (Tinv (T q)) (origin_box (parameters self)) = original_mesh_points self ! n"
    if "\<forall>q. Tinv (T q) = q" and "q = psub (original_mesh_points self ! n) (origin_box (parameters self))"
    for q
  proof -
    from that(1) have "Tinv (T q) = q" by (rule spec)
    with that(2) show ?thesis by (simp only: padd_psub)
  qed
  ultimately show ?thesis by metis
qed

theorem containment_cutoff_witness:
  "perform unit_fit sample = Inr [(2, 1/2, 1/2), (3, 0, 1/2), (3, 0, 0)] \<and>
   unit_fit (fisical_frame (parameters sample)) reference_frame = Inr (\<lambda>p. p) \<and>
   unit_fit reference_frame (fisical_frame (parameters sample)) = Inr (\<lambda>p. p) \<and>
   2 < length (original_mesh_points sample) \<and>
   outside (psub (original_mesh_points sample ! 2) (origin_box (parameters sample))) \<and>
   [(2, 1/2, 1/2), (3, 0, 1/2), (3, 0, 0)] ! 2 =
     padd (psub (original_mesh_points sample ! 2) (origin_box (parameters sample)))
       (origin_box (parameters sample)) \<and>
   (\<forall>q::point. (\<lambda>p. p) ((\<lambda>p. p) q) = q) \<and>
   [(2, 1/2, 1/2), (3, 0, 1/2), (3, 0, 0)] ! 2 = original_mesh_points sample ! 2"
proof -
  have h1: "perform unit_fit sample = Inr [(2, 1/2, 1/2), (3, 0, 1/2), (3, 0, 0)]"
    by (rule sample_run)
  have h2: "unit_fit (fisical_frame (parameters sample)) reference_frame = Inr (\<lambda>p. p)"
    by (simp add: unit_fit_def)
  have h3: "unit_fit reference_frame (fisical_frame (parameters sample)) = Inr (\<lambda>p. p)"
    by (simp add: unit_fit_def)
  have h4: "2 < length (original_mesh_points sample)"
    by (simp add: sample_def)
  have h5: "outside (psub (original_mesh_points sample ! 2) (origin_box (parameters sample)))"
    by (simp add: sample_def unit_box_def outside_def psub_def)
  show ?thesis
    using h1 h2 h3 h4 h5 containment_cutoff[OF h1 h2 h3 h4 h5] by blast
qed

text \<open>
  Claim C7. The returned point cloud has the length of the input, and its \<open>n\<close>-th point is
  the deformation of the \<open>n\<close>-th input point.
\<close>

theorem order_and_length:
  assumes "perform affine_points_fit self = Inr out"
    and "affine_points_fit (fisical_frame (parameters self)) reference_frame = Inr T"
    and "affine_points_fit reference_frame (fisical_frame (parameters self)) = Inr Tinv"
  shows "length out = length (original_mesh_points self) \<and>
         (\<forall>n<length (original_mesh_points self).
            out ! n = spec_deform_point T Tinv (parameters self) (original_mesh_points self ! n))"
proof -
  from perform_Inr[OF assms(1)] assms(2,3)
  have "out = map (spec_deform_point T Tinv (parameters self)) (original_mesh_points self)"
    by auto
  then show ?thesis by simp
qed

theorem order_and_length_witness:
  "perform unit_fit sample = Inr [(2, 1/2, 1/2), (3, 0, 1/2), (3, 0, 0)] \<and>
   unit_fit (fisical_frame (parameters sample)) reference_frame = Inr (\<lambda>p. p) \<and>
   unit_fit reference_frame (fisical_frame (parameters sample)) = Inr (\<lambda>p. p) \<and>
   length [(2, 1/2, 1/2), (3, 0, 1/2), (3, 0, 0) :: point] = length (original_mesh_points sample) \<and>
   [(2, 1/2, 1/2), (3, 0, 1/2), (3, 0, 0)] ! 0 =
     spec_deform_point (\<lambda>p. p) (\<lambda>p. p) (parameters sample) (original_mesh_points sample ! 0) \<and>
   [(2, 1/2, 1/2), (3, 0, 1/2), (3, 0, 0)] ! 1 =
     spec_deform_point (\<lambda>p. p) (\<lambda>p. p) (parameters sample) (original_mesh_points sample ! 1) \<and>
   [(2, 1/2, 1/2), (3, 0, 1/2), (3, 0, 0)] ! 2 =
     spec_deform_point (\<lambda>p. p) (\<lambda>p. p) (parameters sample) (original_mesh_points sample ! 2)"
proof -
  have h1: "perform unit_fit sample = Inr [(2, 1/2, 1/2), (3, 0, 1/2), (3, 0, 0)]"
    by (rule sample_run)
  have h2: "unit_fit (fisical_frame (parameters sample)) reference_frame = Inr (\<lambda>p. p)"
    by (simp add: unit_fit_def)
  have h3: "unit_fit reference_frame (fisical_frame (parameters sample)) = Inr (\<lambda>p. p)"
    by (simp add: unit_fit_def)
  have len: "length (original_mesh_points sample) = 3"
    by (simp add: sample_def)
  from order_and_length[OF h1 h2 h3] len
  have c: "length [(2, 1/2, 1/2), (3, 0, 1/2), (3, 0, 0) :: point] = length (original_mesh_points sample)"
    and n: "\<And>n. n < 3 \<Longrightarrow> [(2, 1/2, 1/2), (3, 0, 1/2), (3, 0, 0)] ! n =
        spec_deform_point (\<lambda>p. p) (\<lambda>p. p) (parameters sample) (original_mesh_points sample ! n)"
    by simp_all
  show ?thesis
    using h1 h2 h3 c n[of 0] n[of 1] n[of 2] by simp
qed

text \<open>
  Claim C9. A point whose reference-frame coordinates all lie in the closed interval from 0
  to 1, the two ends included, keeps its whole Bernstein shift.
\<close>

theorem boundary_inclusive:
  assumes "perform affine_points_fit self = Inr out"
    and "affine_points_fit (fisical_frame (parameters self)) reference_frame = Inr T"
    and "affine_points_fit reference_frame (fisical_frame (parameters self)) = Inr Tinv"
    and "n < length (original_mesh_points self)"
    and "T (psub (original_mesh_points self ! n) (origin_box (parameters self))) = (x, y, z)"
    and "0 \<le> x" "x \<le> 1" "0 \<le> y" "y \<le> 1" "0 \<le> z" "z \<le> 1"
  shows "out ! n = padd (Tinv (padd (spec_shift (parameters self) (x, y, z)) (x, y, z)))
                     (origin_box (parameters self))"
proof -
  from perform_Inr[OF assms(1)] assms(2,3)
  have "out = map (spec_deform_point T Tinv (parameters self)) (original_mesh_points self)"
    by auto
  moreover have "\<not> outside (x, y, z)"
    using assms(6-11) by (simp add: outside_def)
  ultimately show ?thesis
    using assms(4,5) by (simp add: spec_deform_point_def Let_def)
qed

theorem boundary_inclusive_witness:
  "perform unit_fit sample = Inr [(2, 1/2, 1/2), (3, 0, 1/2), (3, 0, 0)] \<and>
   unit_fit (fisical_frame (parameters sample)) reference_frame = Inr (\<lambda>p. p) \<and>
   unit_fit reference_frame (fisical_frame (parameters sample)) = Inr (\<lambda>p. p) \<and>
   1 < length (original_mesh_points sample) \<and>
   psub (original_mesh_points sample ! 1) (origin_box (parameters sample)) = (1, 0, 1/2) \<and>
   spec_shift (parameters sample) (1, 0, 1/2) = (1, 0, 0) \<and>
   [(2, 1/2, 1/2), (3, 0, 1/2), (3, 0, 0)] ! 1 =
     padd (padd (spec_shift (parameters sample) (1, 0, 1/2)) (1, 0, 1/2))
       (origin_box (parameters sample))"
proof -
  have h1: "perform unit_fit sample = Inr [(2, 1/2, 1/2), (3, 0, 1/2), (3, 0, 0)]"
    by (rule sample_run)
  have h2: "unit_fit (fisical_frame (parameters sample)) reference_frame = Inr (\<lambda>p. p)"
    by (simp add: unit_fit_def)
  have h3: "unit_fit reference_frame (fisical_frame (parameters sample)) = Inr (\<lambda>p. p)"
    by (simp add: unit_fit_def)
  have h4: "1 < length (original_mesh_points sample)"
    by (simp add: sample_def)
  have h5: "psub (original_mesh_points sample ! 1) (origin_box (parameters sample)) = (1, 0, 1/2)"
    by (simp add: sample_def unit_box_def psub_def)
  have s: "spec_shift (parameters sample) (1, 0, 1/2) = (1, 0, 0)"
    by (simp add: sample_def unit_box_def spec_shift_def spec_shift_component_def weight_def
        bernstein_def zeros3_def Let_def upt2)
  have bounds: "(0::real) \<le> 1" "(1::real) \<le> 1" "(0::real) \<le> 0" "(0::real) \<le> 1"
    "(0::real) \<le> 1/2" "(1/2::real) \<le> 1"
    by simp_all
  show ?thesis
    using h1 h2 h3 h4 h5 s boundary_inclusive[OF h1 h2 h3 h4 h5 bounds] by blast
qed

section \<open>Properties of \<open>perform\<close> on the store\<close>

lemma keeps_refl: "keeps n h h"
  by (simp add: keeps_def)

lemma keeps_trans: "keeps n h h1 \<Longrightarrow> keeps n h1 h2 \<Longrightarrow> keeps n h h2"
  by (simp add: keeps_def)

lemma bind_Inr: "bind m f = Inr r \<longleftrightarrow> (\<exists>x. m = Inr x \<and> f x = Inr r)"
  by (cases m) (simp_all add: bind_def)

lemma alloc_keeps:
  assumes "alloc c h = (a, h')" and "n \<le> length h"
  shows "a = length h \<and> length h' = Suc (length h) \<and> keeps n h h'"
  using assms by (auto simp: alloc_def keeps_def)

lemma modify_keeps:
  assumes "modify a f h = Inr h'" and "n \<le> a"
  shows "keeps n h h' \<and> length h' = length h"
  using assms by (auto simp: modify_def keeps_def split: if_splits sum.splits)

lemma for_range_keeps:
  assumes "for_range xs body s = Inr s'"
    and "\<And>i t t'. body i t = Inr t' \<Longrightarrow> keeps n t t' \<and> length t' = length t"
  shows "keeps n s s' \<and> length s' = length s"
  using assms(1)
proof (induction xs arbitrary: s)
  case Nil
  then show ?case by (simp add: keeps_refl)
next
  case (Cons i xs)
  from Cons.prems obtain t where t: "body i s = Inr t" and rest: "for_range xs body t = Inr s'"
    by (auto split: sum.splits)
  from assms(2)[OF t] Cons.IH[OF rest] show ?case
    by (auto intro: keeps_trans)
qed

lemma transform_points_heap_keeps:
  assumes "transform_points_heap a T h = Inr (r, h')" and "n \<le> length h"
  shows "r = length h \<and> length h' = Suc (length h) \<and> keeps n h h'"
proof -
  from assms(1) have "\<exists>pts::point list.
      for_range [0..<length pts]
        (\<lambda>i h'. bind (read_points h' a) (\<lambda>ps. bind (getitem ps i) (\<lambda>single_point.
           modify (length h) (set_row i (T single_point)) h')))
        (h @ [Points (replicate (length pts) (0, 0, 0))]) = Inr h' \<and> r = length h"
    unfolding transform_points_heap_def by (clarsimp simp: bind_Inr alloc_def) blast
  then obtain pts :: "point list" where
    loop: "for_range [0..<length pts]
             (\<lambda>i h'. bind (read_points h' a) (\<lambda>ps. bind (getitem ps i) (\<lambda>single_point.
           modify (length h) (set_row i (T single_point)) h')))
             (h @ [Points (replicate (length pts) (0, 0, 0))]) = Inr h'"
    and r: "r = length h"
    by blast
  have "keeps n (h @ [Points (replicate (length pts) (0, 0, 0))]) h' \<and>
        length h' = length (h @ [Points (replicate (length pts) (0, 0, 0))])"
    using loop
  proof (rule for_range_keeps)
    fix i t t'
    assume "bind (read_points t a) (\<lambda>ps. bind (getitem ps i) (\<lambda>single_point.
              modify (length h) (set_row i (T single_point)) t)) = Inr t'"
    then have "\<exists>f. modify (length h) f t = Inr t'"
      unfolding bind_Inr by blast
    then obtain f where "modify (length h) f t = Inr t'"
      by blast
    from modify_keeps[OF this assms(2)] show "keeps n t t' \<and> length t' = length t" .
  qed
  moreover have "keeps n h (h @ [Points (replicate (length pts) (0, 0, 0))])"
    using assms(2) by (simp add: keeps_def)
  ultimately show ?thesis using r by (auto intro: keeps_trans)
qed

lemma bernstein_heap_keeps:
  assumes "bernstein_heap b axis d ref h = Inr h'" and "n \<le> b"
  shows "keeps n h h' \<and> length h' = length h"
  using assms(1) unfolding bernstein_heap_def
proof (rule for_range_keeps)
  fix i t t'
  assume "bind (read_points t ref)
            (\<lambda>r. let aux1 = np_power (one_minus (column axis r)) (d - 1 - i);
                      aux2 = np_power (column axis r) i
                  in modify b (set_column i (scale (binom (d - 1) i) (np_multiply aux1 aux2))) t)
          = Inr t'"
  then obtain v where "modify b (set_column i v) t = Inr t'"
    by (auto simp: bind_Inr Let_def)
  from modify_keeps[OF this assms(2)] show "keeps n t t' \<and> length t' = length t" .
qed

lemma accumulate_heap_keeps:
  assumes "accumulate_heap P bx by bz shift i j k h = Inr h'" and "n \<le> shift"
  shows "keeps n h h' \<and> length h' = length h"
proof -
  from assms(1) obtain u v w where "modify shift (add_to_columns u v w) h = Inr h'"
    unfolding accumulate_heap_def by (auto simp: bind_Inr Let_def)
  from modify_keeps[OF this assms(2)] show ?thesis .
qed

lemma accumulate_loops_keeps:
  assumes "for_range xs (\<lambda>i. for_range ys (\<lambda>j. for_range zs (\<lambda>k.
             accumulate_heap P bx by bz shift i j k))) h = Inr h'"
    and "n \<le> shift"
  shows "keeps n h h' \<and> length h' = length h"
  using assms(1)
proof (rule for_range_keeps)
  fix i t t'
  assume "for_range ys (\<lambda>j. for_range zs (\<lambda>k. accumulate_heap P bx by bz shift i j k)) t = Inr t'"
  then show "keeps n t t' \<and> length t' = length t"
  proof (rule for_range_keeps)
    fix j u u'
    assume "for_range zs (\<lambda>k. accumulate_heap P bx by bz shift i j k) u = Inr u'"
    then show "keeps n u u' \<and> length u' = length u"
      by (rule for_range_keeps) (rule accumulate_heap_keeps[OF _ assms(2)])
  qed
qed

lemma split_heap_keeps:
  assumes "split_heap ref shift m h = Inr h'" and "n \<le> shift"
  shows "keeps n h h' \<and> length h' = length h"
  using assms(1) unfolding split_heap_def
proof (rule for_range_keeps)
  fix i t t'
  assume "bind (read_points t ref) (\<lambda>r. bind (getitem r i) (\<lambda>row.
            if outside row then modify shift (set_row i (0, 0, 0)) t else Inr t)) = Inr t'"
  then have "modify shift (set_row i (0, 0, 0)) t = Inr t' \<or> t' = t"
    by (auto simp: bind_Inr split: if_splits)
  then show "keeps n t t' \<and> length t' = length t"
    using modify_keeps[OF _ assms(2)] by (auto simp: keeps_refl)
qed

lemma deform_heap_keeps:
  assumes "deform_heap P m dims bx by bz shift ref h = Inr h'"
    and "n \<le> bx" "n \<le> by" "n \<le> bz" "n \<le> shift"
  shows "keeps n h h' \<and> length h' = length h"
proof -
  obtain dn dm dt where dims: "dims = (dn, dm, dt)" by (cases dims) auto
  from assms(1) have "\<exists>h1 h2 h3 h4.
      bernstein_heap bx 0 dn ref h = Inr h1 \<and> bernstein_heap by 1 dm ref h1 = Inr h2 \<and>
      bernstein_heap bz 2 dt ref h2 = Inr h3 \<and>
      for_range [0..<dn] (\<lambda>i. for_range [0..<dm] (\<lambda>j. for_range [0..<dt] (\<lambda>k.
         accumulate_heap P bx by bz shift i j k))) h3 = Inr h4 \<and>
      split_heap ref shift m h4 = Inr h'"
    unfolding deform_heap_def dims by (simp add: bind_Inr)
  then obtain h1 h2 h3 h4 where
    s: "bernstein_heap bx 0 dn ref h = Inr h1" "bernstein_heap by 1 dm ref h1 = Inr h2"
      "bernstein_heap bz 2 dt ref h2 = Inr h3"
      "for_range [0..<dn] (\<lambda>i. for_range [0..<dm] (\<lambda>j. for_range [0..<dt] (\<lambda>k.
         accumulate_heap P bx by bz shift i j k))) h3 = Inr h4"
      "split_heap ref shift m h4 = Inr h'"
    by blast
  note k = bernstein_heap_keeps[OF s(1) assms(2)] bernstein_heap_keeps[OF s(2) assms(3)]
    bernstein_heap_keeps[OF s(3) assms(4)] accumulate_loops_keeps[OF s(4) assms(5)]
    split_heap_keeps[OF s(5) assms(5)]
  have "keeps n h h'" using k by (blast intro: keeps_trans)
  moreover have "length h' = length h" using k by simp
  ultimately show ?thesis by simp
qed

lemma return_heap_keeps:
  assumes "return_heap translation shift ref Tinv h = Inr (res, h')" and "n \<le> length h"
  shows "keeps n h h' \<and> length h \<le> res \<and> res < length h' \<and> (\<exists>out. h' ! res = Points out)"
proof -
  from assms(1) have "\<exists>s r bk h2 physical origin.
      transform_points_heap (length h) Tinv (h @ [Points (map2 padd s r)]) = Inr (bk, h2) \<and>
      (res, h') = alloc (Points (map (\<lambda>p. padd p origin) physical)) h2"
    unfolding return_heap_def by (clarsimp simp: bind_Inr alloc_def) blast
  then obtain s r bk h2 physical origin where
    t: "transform_points_heap (length h) Tinv (h @ [Points (map2 padd s r)]) = Inr (bk, h2)"
    and res: "(res, h') = alloc (Points (map (\<lambda>p. padd p origin) physical)) h2"
    by blast
  have k1: "keeps n h (h @ [Points (map2 padd s r)])"
    using assms(2) by (simp add: keeps_def)
  from transform_points_heap_keeps[OF t, of n] assms(2)
  have k2: "keeps n (h @ [Points (map2 padd s r)]) h2" and l2: "length h2 = Suc (Suc (length h))"
    by simp_all
  from res have r: "res = length h2" "h' = h2 @ [Points (map (\<lambda>p. padd p origin) physical)]"
    by (simp_all add: alloc_def)
  have k3: "keeps n h2 h'" using r l2 assms(2) by (simp add: keeps_def)
  from keeps_trans[OF keeps_trans[OF k1 k2] k3] r l2 show ?thesis by (simp add: nth_append)
qed

lemma allocate_heap_keeps:
  assumes "allocate_heap m dims h = ((bx, by, bz, shift), h')"
  shows "bx = length h \<and> by = Suc (length h) \<and> bz = Suc (Suc (length h)) \<and>
         shift = Suc (Suc (Suc (length h))) \<and> length h' = length h + 4 \<and>
         keeps (length h) h h'"
  using assms unfolding allocate_heap_def
  by (cases dims) (auto simp: alloc_def keeps_def)

lemma translated_heap_keeps:
  assumes "translated_heap a translation h = Inr (r, h')" and "n \<le> length h"
  shows "r = length h \<and> length h' = Suc (length h) \<and> keeps n h h'"
  using assms unfolding translated_heap_def
  by (auto simp: bind_Inr alloc_def keeps_def)

lemma perform_heap_keeps:
  assumes "perform_heap affine_points_fit self h = Inr (res, h')"
  shows "keeps (length h) h h' \<and> length h \<le> res \<and> res < length h' \<and>
         (\<exists>out. h' ! res = Points out)"
proof -
  let ?n = "length h"
  let ?P = "parameters_ref self"
  from assms have "\<exists>(mesh::point list) T Tinv (mu::array3) tr h2 ref h3 h4.
      translated_heap (original_mesh_points_ref self) (origin_box_ref ?P)
        (snd (allocate_heap (length mesh) (shape mu) h)) = Inr (tr, h2) \<and>
      transform_points_heap tr T h2 = Inr (ref, h3) \<and>
      deform_heap ?P (length mesh) (shape mu)
        (fst (fst (allocate_heap (length mesh) (shape mu) h)))
        (fst (snd (fst (allocate_heap (length mesh) (shape mu) h))))
        (fst (snd (snd (fst (allocate_heap (length mesh) (shape mu) h)))))
        (snd (snd (snd (fst (allocate_heap (length mesh) (shape mu) h))))) ref h3 = Inr h4 \<and>
      return_heap (origin_box_ref ?P)
        (snd (snd (snd (fst (allocate_heap (length mesh) (shape mu) h))))) ref Tinv h4 =
        Inr (res, h')"
    unfolding perform_heap_def Let_def
    by (simp add: bind_Inr case_prod_beta) blast
  then obtain mesh :: "point list" and T Tinv and mu :: array3 and tr h2 ref h3 h4 where
    tr0: "translated_heap (original_mesh_points_ref self) (origin_box_ref ?P)
        (snd (allocate_heap (length mesh) (shape mu) h)) = Inr (tr, h2)"
    and tp: "transform_points_heap tr T h2 = Inr (ref, h3)"
    and de0: "deform_heap ?P (length mesh) (shape mu)
        (fst (fst (allocate_heap (length mesh) (shape mu) h)))
        (fst (snd (fst (allocate_heap (length mesh) (shape mu) h))))
        (fst (snd (snd (fst (allocate_heap (length mesh) (shape mu) h)))))
        (snd (snd (snd (fst (allocate_heap (length mesh) (shape mu) h))))) ref h3 = Inr h4"
    and re0: "return_heap (origin_box_ref ?P)
        (snd (snd (snd (fst (allocate_heap (length mesh) (shape mu) h))))) ref Tinv h4 =
        Inr (res, h')"
    by blast
  obtain bx "by" bz shift h1 where
    al: "allocate_heap (length mesh) (shape mu) h = ((bx, by, bz, shift), h1)"
    by (metis prod.exhaust)
  from tr0 de0 re0 have
    tr: "translated_heap (original_mesh_points_ref self) (origin_box_ref ?P) h1 = Inr (tr, h2)"
    and de: "deform_heap ?P (length mesh) (shape mu) bx by bz shift ref h3 = Inr h4"
    and re: "return_heap (origin_box_ref ?P) shift ref Tinv h4 = Inr (res, h')"
    by (simp_all add: al)
  from allocate_heap_keeps[OF al] have
    a: "?n \<le> bx" "?n \<le> by" "?n \<le> bz" "?n \<le> shift" and l1: "?n \<le> length h1"
    and k1: "keeps ?n h h1"
    by simp_all
  from translated_heap_keeps[OF tr l1] have k2: "keeps ?n h1 h2" and l2: "?n \<le> length h2"
    using l1 by simp_all
  from transform_points_heap_keeps[OF tp l2] have k3: "keeps ?n h2 h3" and l3: "?n \<le> length h3"
    using l2 by simp_all
  from deform_heap_keeps[OF de a] have k4: "keeps ?n h3 h4" and l4: "?n \<le> length h4"
    using l3 by simp_all
  from return_heap_keeps[OF re l4] have k5: "keeps ?n h4 h'" and r: "length h4 \<le> res"
    "res < length h'" "\<exists>out. h' ! res = Points out"
    by simp_all
  from k1 k2 k3 k4 k5 have "keeps ?n h h'" by (blast intro: keeps_trans)
  with r l4 show ?thesis by simp
qed

lemmas heap_defs = perform_heap_def sample_ref_def sample_heap_def sample_allocated_def
  fisical_frame_heap_def allocate_heap_def translated_heap_def transform_points_heap_def
  deform_heap_def bernstein_heap_def accumulate_heap_def split_heap_def return_heap_def
  bind_def alloc_def modify_def read_points_def read_columns_def read_array3_def read_vector_def
  set_row_def set_column_def add_to_columns_def getitem_def

lemma sample_heap_run:
  "perform_heap unit_fit sample_ref sample_heap = Inr (16, sample_heap @ sample_allocated)"
  by (simp add: heap_defs eval_defs upt2 numeral_2_eq_2)


lemma perform_heap_reads:
  assumes "perform_heap affine_points_fit self h = Inr (res, h')"
  shows "original_mesh_points_ref self < length h"
proof -
  from assms have "\<exists>mesh. read_points h (original_mesh_points_ref self) = Inr mesh"
    unfolding perform_heap_def Let_def bind_Inr by blast
  then show ?thesis
    by (auto simp: read_points_def split: if_splits)
qed

text \<open>
  Claim C10. When \<open>perform\<close> returns, every cell that the store held at the call is as it was:
  the mesh points, the origin, the vertices and the three displacement arrays among them.
  The address it returns is none of theirs: it is a cell allocated during the call, and it
  holds a point array.
\<close>

theorem perform_no_side_effects:
  assumes "perform_heap affine_points_fit self h = Inr (res, h')"
  shows "take (length h) h' = h \<and>
         original_mesh_points_ref self < length h \<and>
         length h \<le> res \<and> res < length h' \<and>
         (\<exists>out. h' ! res = Points out)"
  using perform_heap_keeps[OF assms] perform_heap_reads[OF assms]
  by (simp add: keeps_def)

theorem perform_no_side_effects_witness:
  "perform_heap unit_fit sample_ref sample_heap = Inr (16, sample_heap @ sample_allocated) \<and>
   take (length sample_heap) (sample_heap @ sample_allocated) = sample_heap \<and>
   original_mesh_points_ref sample_ref < length sample_heap \<and>
   length sample_heap \<le> 16 \<and> 16 < length (sample_heap @ sample_allocated) \<and>
   (sample_heap @ sample_allocated) ! 16 = Points [(2, 1/2, 1/2), (3, 0, 1/2), (3, 0, 0)]"
proof -
  have h1: "perform_heap unit_fit sample_ref sample_heap = Inr (16, sample_heap @ sample_allocated)"
    by (rule sample_heap_run)
  have out: "(sample_heap @ sample_allocated) ! 16 = Points [(2, 1/2, 1/2), (3, 0, 1/2), (3, 0, 0)]"
    by (simp add: sample_heap_def sample_allocated_def)
  show ?thesis
    using h1 out perform_no_side_effects[OF h1] by blast
qed

subsection \<open>The store model returns what \<open>perform\<close> returns\<close>

text \<open>
  Each loop over the store is simulated by the loop of \<open>perform\<close> on the contents of the cell
  it writes. Whenever \<open>perform_heap\<close> returns, \<open>perform\<close> on the object the references denote
  returns the point array held in the returned cell.
\<close>

lemma for_range_fold_sim:
  assumes "for_range xs body t = Inr t'" and "R s t"
    and "\<And>i s t t'. R s t \<Longrightarrow> body i t = Inr t' \<Longrightarrow> R (g i s) t'"
  shows "R (fold g xs s) t'"
  using assms(1,2)
proof (induction xs arbitrary: s t)
  case Nil
  then show ?case by simp
next
  case (Cons i xs)
  from Cons.prems(1) obtain u where u: "body i t = Inr u" and rest: "for_range xs body u = Inr t'"
    by (auto split: sum.splits)
  from assms(3)[OF Cons.prems(2) u] have "R (g i s) u" .
  from Cons.IH[OF rest this] show ?case by simp
qed

lemma for_range_sim:
  assumes "for_range xs body t = Inr t'" and "R s t"
    and "\<And>i s t t'. R s t \<Longrightarrow> body i t = Inr t' \<Longrightarrow> \<exists>s'. pure i s = Inr s' \<and> R s' t'"
  shows "\<exists>s'. for_range xs pure s = Inr s' \<and> R s' t'"
  using assms(1,2)
proof (induction xs arbitrary: s t)
  case Nil
  then show ?case by simp
next
  case (Cons i xs)
  from Cons.prems(1) obtain u where u: "body i t = Inr u" and rest: "for_range xs body u = Inr t'"
    by (auto split: sum.splits)
  from assms(3)[OF Cons.prems(2) u] obtain s1 where s1: "pure i s = Inr s1" "R s1 u" by blast
  from Cons.IH[OF rest s1(2)] s1(1) show ?case by simp
qed

lemma modify_Inr:
  "modify a f t = Inr t' \<longleftrightarrow> a < length t \<and> (\<exists>c. f (t ! a) = Inr c \<and> t' = t[a := c])"
  by (auto simp: modify_def split: sum.splits)

lemma read_points_Inr:
  "read_points t a = Inr ps \<longleftrightarrow> a < length t \<and> t ! a = Points ps"
  by (auto simp: read_points_def split: cell.splits)

lemma read_columns_Inr:
  "read_columns t a = Inr cs \<longleftrightarrow> a < length t \<and> t ! a = Columns cs"
  by (auto simp: read_columns_def split: cell.splits)

lemma read_array3_Inr:
  "read_array3 t a = Inr m \<longleftrightarrow> a < length t \<and> t ! a = Array3 m"
  by (auto simp: read_array3_def split: cell.splits)

lemma read_vector_Inr:
  "read_vector t a = Inr v \<longleftrightarrow> a < length t \<and> t ! a = Vector v"
  by (auto simp: read_vector_def split: cell.splits)

lemma getitem_Inr_iff: "getitem xs i = Inr w \<longleftrightarrow> i < length xs \<and> w = xs ! i"
  by (auto simp: getitem_def)

lemma set_row_Inr:
  "set_row i v c = Inr c' \<longleftrightarrow> (\<exists>ps. c = Points ps \<and> i < length ps \<and> c' = Points (ps[i := v]))"
  by (auto simp: set_row_def split: cell.splits)

lemma set_column_Inr:
  "set_column i v c = Inr c' \<longleftrightarrow> (\<exists>cs. c = Columns cs \<and> i < length cs \<and> c' = Columns (cs[i := v]))"
  by (auto simp: set_column_def split: cell.splits)

lemma fold_update_map:
  "k \<le> length m \<Longrightarrow> fold (\<lambda>i m. m[i := f i]) [0..<k] m = map f [0..<k] @ drop k m"
proof (induction k)
  case 0
  then show ?case by simp
next
  case (Suc k)
  then have "fold (\<lambda>i m. m[i := f i]) [0..<Suc k] m = (map f [0..<k] @ drop k m)[k := f k]"
    by simp
  also have "\<dots> = map f [0..<k] @ (drop k m)[0 := f k]"
    by (simp add: list_update_append)
  also have "(drop k m)[0 := f k] = f k # drop (Suc k) m"
    using Suc.prems Cons_nth_drop_Suc[of k m, symmetric] by simp
  finally show ?case by simp
qed

lemma transform_points_heap_exact:
  assumes "transform_points_heap a T h = Inr (r, h')" and "read_points h a = Inr pts"
  shows "r = length h \<and> h' = h @ [Points (transform_points pts T)]"
proof -
  let ?body = "\<lambda>i t. bind (read_points t a) (\<lambda>ps. bind (getitem ps i) (\<lambda>single_point.
                  modify (length h) (set_row i (T single_point)) t))"
  from assms have loop: "for_range [0..<length pts] ?body
        (h @ [Points (replicate (length pts) (0, 0, 0))]) = Inr h'" and r: "r = length h"
    unfolding transform_points_heap_def by (auto simp: bind_Inr alloc_def)
  from assms(2) have a: "a < length h" "h ! a = Points pts"
    by (simp_all add: read_points_Inr)
  have "h' = h @ [Points (fold (\<lambda>i m. m[i := T (pts ! i)]) [0..<length pts]
                     (replicate (length pts) (0, 0, 0)))]"
    using loop
  proof (rule for_range_fold_sim[where R = "\<lambda>m t. t = h @ [Points m]"])
    show "h @ [Points (replicate (length pts) (0, 0, 0))] =
          h @ [Points (replicate (length pts) (0, 0, 0))]" ..
  next
    fix i m t t'
    assume t: "t = h @ [Points m]" and b: "?body i t = Inr t'"
    have rd: "read_points t a = Inr pts"
      using a t by (simp add: read_points_Inr nth_append)
    from b show "t' = h @ [Points (m[i := T (pts ! i)])]"
      unfolding bind_Inr rd getitem_Inr_iff modify_Inr set_row_Inr
      by (auto simp: t)
  qed
  with r show ?thesis by (simp add: transform_points_def Let_def)
qed

lemma bernstein_heap_exact:
  assumes "bernstein_heap b axis d ref t = Inr t'"
    and "b < length t" "t ! b = Columns cs" "length cs = d"
    and "ref < length t" "t ! ref = Points r" "ref \<noteq> b"
  shows "t' = t[b := Columns (bernstein_columns d (column axis r))]"
proof -
  let ?col = "\<lambda>i. scale (binom (d - 1) i)
                 (np_multiply (np_power (one_minus (column axis r)) (d - 1 - i))
                    (np_power (column axis r) i))"
  have "t' = t[b := Columns (fold (\<lambda>i m. m[i := ?col i]) [0..<d] cs)]"
    using assms(1) unfolding bernstein_heap_def
  proof (rule for_range_fold_sim[where R = "\<lambda>m u. u = t[b := Columns m]"])
    show "t = t[b := Columns cs]" using assms(3) list_update_id[of t b] by simp
  next
    fix i m u u'
    assume u: "u = t[b := Columns m]"
      and b: "bind (read_points u ref)
                (\<lambda>r. let aux1 = np_power (one_minus (column axis r)) (d - 1 - i);
                          aux2 = np_power (column axis r) i
                      in modify b (set_column i (scale (binom (d - 1) i) (np_multiply aux1 aux2))) u)
              = Inr u'"
    have rd: "read_points u ref = Inr r"
      using assms(5,6,7) u by (simp add: read_points_Inr)
    from b show "u' = t[b := Columns (m[i := ?col i])]"
      unfolding bind_Inr rd Let_def modify_Inr set_column_Inr
      using assms(2) by (auto simp: u)
  qed
  also have "fold (\<lambda>i m. m[i := ?col i]) [0..<d] cs = bernstein_columns d (column axis r)"
    using fold_update_map[of d cs ?col] assms(4) by (simp add: bernstein_columns_def Let_def)
  finally show ?thesis .
qed

lemma split_heap_exact:
  assumes "split_heap ref sh (length r) t = Inr t'"
    and "sh < length t" "t ! sh = Points s"
    and "ref < length t" "t ! ref = Points r" "ref \<noteq> sh"
  shows "t' = t[sh := Points (split_inside_outside r s)]"
  unfolding split_inside_outside_def
  using assms(1) unfolding split_heap_def
proof (rule for_range_fold_sim[where R = "\<lambda>m u. u = t[sh := Points m]"])
  show "t = t[sh := Points s]" using assms(3) list_update_id[of t sh] by simp
next
  fix i m u u'
  assume u: "u = t[sh := Points m]"
    and b: "bind (read_points u ref) (\<lambda>r. bind (getitem r i) (\<lambda>row.
              if outside row then modify sh (set_row i (0, 0, 0)) u else Inr u)) = Inr u'"
  have rd: "read_points u ref = Inr r"
    using assms(4,5,6) u by (simp add: read_points_Inr)
  from b show "u' = t[sh := Points (if outside (r ! i) then m[i := (0, 0, 0)] else m)]"
    unfolding bind_Inr rd getitem_Inr_iff
    using assms(2) by (auto simp: u modify_Inr set_row_Inr split: if_splits)
qed

lemma accumulate_heap_sim:
  assumes "accumulate_heap Pref bxa bya bza sh i j k u = Inr u'"
    and "u = t[sh := Points s]"
    and "sh < length t"
    and "read_columns t bxa = Inr bx" "read_columns t bya = Inr by" "read_columns t bza = Inr bz"
    and "read_array3 t (array_mu_x_ref Pref) = Inr (array_mu_x P)"
    and "read_array3 t (array_mu_y_ref Pref) = Inr (array_mu_y P)"
    and "read_array3 t (array_mu_z_ref Pref) = Inr (array_mu_z P)"
    and "bxa \<noteq> sh" "bya \<noteq> sh" "bza \<noteq> sh"
    and "array_mu_x_ref Pref \<noteq> sh" "array_mu_y_ref Pref \<noteq> sh" "array_mu_z_ref Pref \<noteq> sh"
  shows "\<exists>s'. accumulate P bx by bz i j k s = Inr s' \<and> u' = t[sh := Points s']"
proof -
  have rd: "read_columns u bxa = Inr bx" "read_columns u bya = Inr by" "read_columns u bza = Inr bz"
    "read_array3 u (array_mu_x_ref Pref) = Inr (array_mu_x P)"
    "read_array3 u (array_mu_y_ref Pref) = Inr (array_mu_y P)"
    "read_array3 u (array_mu_z_ref Pref) = Inr (array_mu_z P)"
    using assms(2-) by (simp_all add: read_columns_Inr read_array3_Inr)
  from assms(1) obtain mu_x mu_y mu_z where
    g: "getitem3 (array_mu_x P) i j k = Inr mu_x" "getitem3 (array_mu_y P) i j k = Inr mu_y"
      "getitem3 (array_mu_z P) i j k = Inr mu_z"
    and m: "modify sh (add_to_columns
              (scale mu_x (np_multiply (bx ! i) (np_multiply (by ! j) (bz ! k))))
              (scale mu_y (np_multiply (bx ! i) (np_multiply (by ! j) (bz ! k))))
              (scale mu_z (np_multiply (bx ! i) (np_multiply (by ! j) (bz ! k))))) u = Inr u'"
    unfolding accumulate_heap_def bind_Inr rd getitem_Inr_iff Let_def by auto
  from m assms(2,3) have "u' = t[sh := Points (add_to_column 2 (add_to_column 1 (add_to_column 0 s
      (scale mu_x (np_multiply (bx ! i) (np_multiply (by ! j) (bz ! k)))))
      (scale mu_y (np_multiply (bx ! i) (np_multiply (by ! j) (bz ! k)))))
      (scale mu_z (np_multiply (bx ! i) (np_multiply (by ! j) (bz ! k)))))]"
    by (auto simp: modify_Inr add_to_columns_def)
  then show ?thesis
    by (simp add: accumulate_def Let_def g)
qed

lemma accumulate_loops_sim:
  assumes "for_range xs (\<lambda>i. for_range ys (\<lambda>j. for_range zs (\<lambda>k.
             accumulate_heap Pref bxa bya bza sh i j k))) t = Inr t'"
    and "sh < length t" "t ! sh = Points s"
    and "read_columns t bxa = Inr bx" "read_columns t bya = Inr by" "read_columns t bza = Inr bz"
    and "read_array3 t (array_mu_x_ref Pref) = Inr (array_mu_x P)"
    and "read_array3 t (array_mu_y_ref Pref) = Inr (array_mu_y P)"
    and "read_array3 t (array_mu_z_ref Pref) = Inr (array_mu_z P)"
    and "bxa \<noteq> sh" "bya \<noteq> sh" "bza \<noteq> sh"
    and "array_mu_x_ref Pref \<noteq> sh" "array_mu_y_ref Pref \<noteq> sh" "array_mu_z_ref Pref \<noteq> sh"
  shows "\<exists>s'. for_range xs (\<lambda>i. for_range ys (\<lambda>j. for_range zs (\<lambda>k.
                 accumulate P bx by bz i j k))) s = Inr s' \<and> t' = t[sh := Points s']"
  using assms(1)
proof (rule for_range_sim[where R = "\<lambda>m u. u = t[sh := Points m]"])
  show "t = t[sh := Points s]" using assms(3) list_update_id[of t sh] by simp
next
  fix i m u u'
  assume u: "u = t[sh := Points m]"
    and b: "for_range ys (\<lambda>j. for_range zs (\<lambda>k. accumulate_heap Pref bxa bya bza sh i j k)) u = Inr u'"
  from b show "\<exists>s'. for_range ys (\<lambda>j. for_range zs (\<lambda>k. accumulate P bx by bz i j k)) m = Inr s' \<and>
                 u' = t[sh := Points s']"
  proof (rule for_range_sim[where R = "\<lambda>m u. u = t[sh := Points m]"])
    show "u = t[sh := Points m]" by (rule u)
  next
    fix j m1 u1 u1'
    assume u1: "u1 = t[sh := Points m1]"
      and b1: "for_range zs (\<lambda>k. accumulate_heap Pref bxa bya bza sh i j k) u1 = Inr u1'"
    from b1 show "\<exists>s'. for_range zs (\<lambda>k. accumulate P bx by bz i j k) m1 = Inr s' \<and>
                   u1' = t[sh := Points s']"
    proof (rule for_range_sim[where R = "\<lambda>m u. u = t[sh := Points m]"])
      show "u1 = t[sh := Points m1]" by (rule u1)
    next
      fix k m2 u2 u2'
      assume "u2 = t[sh := Points m2]"
        and "accumulate_heap Pref bxa bya bza sh i j k u2 = Inr u2'"
      from accumulate_heap_sim[OF this(2,1) assms(2) assms(4-)]
      show "\<exists>s'. accumulate P bx by bz i j k m2 = Inr s' \<and> u2' = t[sh := Points s']" .
    qed
  qed
qed

lemma deform_heap_exact:
  assumes "deform_heap Pref (length r) (dn, dm, dt) (length h) (Suc (length h))
             (Suc (Suc (length h))) (Suc (Suc (Suc (length h)))) (length h + 5)
             (h @ [Columns cx, Columns cy, Columns cz, Points s0, Points trp, Points r]) = Inr t'"
    and "length cx = dn" "length cy = dm" "length cz = dt"
    and "read_array3 h (array_mu_x_ref Pref) = Inr (array_mu_x P)"
    and "read_array3 h (array_mu_y_ref Pref) = Inr (array_mu_y P)"
    and "read_array3 h (array_mu_z_ref Pref) = Inr (array_mu_z P)"
  shows "\<exists>s'. for_range [0..<dn] (\<lambda>i. for_range [0..<dm] (\<lambda>j. for_range [0..<dt] (\<lambda>k.
                 accumulate P (bernstein_columns dn (column 0 r)) (bernstein_columns dm (column 1 r))
                   (bernstein_columns dt (column 2 r)) i j k))) s0 = Inr s' \<and>
              t' = h @ [Columns (bernstein_columns dn (column 0 r)),
                        Columns (bernstein_columns dm (column 1 r)),
                        Columns (bernstein_columns dt (column 2 r)),
                        Points (split_inside_outside r s'), Points trp, Points r]"
proof -
  let ?n = "length h"
  let ?BX = "bernstein_columns dn (column 0 r)"
  let ?BY = "bernstein_columns dm (column 1 r)"
  let ?BZ = "bernstein_columns dt (column 2 r)"
  let ?t0 = "h @ [Columns cx, Columns cy, Columns cz, Points s0, Points trp, Points r]"
  from assms(1) obtain h1 h2 h3 h4 where
    s: "bernstein_heap ?n 0 dn (?n + 5) ?t0 = Inr h1"
      "bernstein_heap (Suc ?n) 1 dm (?n + 5) h1 = Inr h2"
      "bernstein_heap (Suc (Suc ?n)) 2 dt (?n + 5) h2 = Inr h3"
      "for_range [0..<dn] (\<lambda>i. for_range [0..<dm] (\<lambda>j. for_range [0..<dt] (\<lambda>k.
         accumulate_heap Pref ?n (Suc ?n) (Suc (Suc ?n)) (Suc (Suc (Suc ?n))) i j k))) h3 = Inr h4"
      "split_heap (?n + 5) (Suc (Suc (Suc ?n))) (length r) h4 = Inr t'"
    unfolding deform_heap_def prod.case bind_Inr by blast
  have h1: "h1 = h @ [Columns ?BX, Columns cy, Columns cz, Points s0, Points trp, Points r]"
    using bernstein_heap_exact[OF s(1), of cx r] assms(2)
    by (simp add: nth_append list_update_append)
  have h2: "h2 = h @ [Columns ?BX, Columns ?BY, Columns cz, Points s0, Points trp, Points r]"
    using bernstein_heap_exact[OF s(2), of cy r] assms(3)
    by (simp add: h1 nth_append list_update_append)
  have h3: "h3 = h @ [Columns ?BX, Columns ?BY, Columns ?BZ, Points s0, Points trp, Points r]"
    using bernstein_heap_exact[OF s(3), of cz r] assms(4)
    by (simp add: h2 nth_append list_update_append)
  from assms(5-7) have mu: "array_mu_x_ref Pref < ?n" "array_mu_y_ref Pref < ?n"
    "array_mu_z_ref Pref < ?n"
    "h ! array_mu_x_ref Pref = Array3 (array_mu_x P)"
    "h ! array_mu_y_ref Pref = Array3 (array_mu_y P)"
    "h ! array_mu_z_ref Pref = Array3 (array_mu_z P)"
    by (simp_all add: read_array3_Inr)
  have "\<exists>s'. for_range [0..<dn] (\<lambda>i. for_range [0..<dm] (\<lambda>j. for_range [0..<dt] (\<lambda>k.
                 accumulate P ?BX ?BY ?BZ i j k))) s0 = Inr s' \<and>
              h4 = h3[Suc (Suc (Suc ?n)) := Points s']"
    using s(4)
  proof (rule accumulate_loops_sim)
    show "Suc (Suc (Suc ?n)) < length h3" by (simp add: h3)
    show "h3 ! Suc (Suc (Suc ?n)) = Points s0" by (simp add: h3 nth_append)
    show "read_columns h3 ?n = Inr ?BX" by (simp add: h3 read_columns_Inr nth_append)
    show "read_columns h3 (Suc ?n) = Inr ?BY" by (simp add: h3 read_columns_Inr nth_append)
    show "read_columns h3 (Suc (Suc ?n)) = Inr ?BZ" by (simp add: h3 read_columns_Inr nth_append)
    show "read_array3 h3 (array_mu_x_ref Pref) = Inr (array_mu_x P)"
      using mu by (simp add: h3 read_array3_Inr nth_append)
    show "read_array3 h3 (array_mu_y_ref Pref) = Inr (array_mu_y P)"
      using mu by (simp add: h3 read_array3_Inr nth_append)
    show "read_array3 h3 (array_mu_z_ref Pref) = Inr (array_mu_z P)"
      using mu by (simp add: h3 read_array3_Inr nth_append)
    show "array_mu_x_ref Pref \<noteq> Suc (Suc (Suc ?n))" using mu by simp
    show "array_mu_y_ref Pref \<noteq> Suc (Suc (Suc ?n))" using mu by simp
    show "array_mu_z_ref Pref \<noteq> Suc (Suc (Suc ?n))" using mu by simp
  qed simp_all
  then obtain s' where
    pure: "for_range [0..<dn] (\<lambda>i. for_range [0..<dm] (\<lambda>j. for_range [0..<dt] (\<lambda>k.
             accumulate P ?BX ?BY ?BZ i j k))) s0 = Inr s'"
    and h4: "h4 = h @ [Columns ?BX, Columns ?BY, Columns ?BZ, Points s', Points trp, Points r]"
    by (auto simp: h3 list_update_append)
  have "t' = h4[Suc (Suc (Suc ?n)) := Points (split_inside_outside r s')]"
    using s(5)
    by (rule split_heap_exact) (simp_all add: h4 nth_append)
  then have "t' = h @ [Columns ?BX, Columns ?BY, Columns ?BZ, Points (split_inside_outside r s'),
                       Points trp, Points r]"
    by (simp add: h4 list_update_append)
  with pure show ?thesis by blast
qed

lemma return_heap_exact:
  assumes "return_heap tra sh ref Tinv t = Inr (res, t')"
    and "read_points t sh = Inr s" "read_points t ref = Inr r" "read_vector t tra = Inr origin"
  shows "res = Suc (Suc (length t)) \<and>
         t' = t @ [Points (map2 padd s r), Points (transform_points (map2 padd s r) Tinv),
                   Points (map (\<lambda>p. padd p origin) (transform_points (map2 padd s r) Tinv))]"
proof -
  let ?moved = "map2 padd s r"
  from assms obtain bk h2 physical where
    t: "transform_points_heap (length t) Tinv (t @ [Points ?moved]) = Inr (bk, h2)"
    and p: "read_points h2 bk = Inr physical"
    and o: "bind (read_vector h2 tra) (\<lambda>origin.
              Inr (alloc (Points (map (\<lambda>p. padd p origin) physical)) h2)) = Inr (res, t')"
    unfolding return_heap_def by (auto simp: bind_Inr alloc_def)
  have "read_points (t @ [Points ?moved]) (length t) = Inr ?moved"
    by (simp add: read_points_Inr)
  from transform_points_heap_exact[OF t this]
  have bk: "bk = Suc (length t)"
    and h2: "h2 = t @ [Points ?moved, Points (transform_points ?moved Tinv)]"
    by simp_all
  from p have physical: "physical = transform_points ?moved Tinv"
    by (simp add: read_points_Inr bk h2 nth_append)
  from assms(4) have "read_vector h2 tra = Inr origin"
    by (auto simp: read_vector_Inr h2 nth_append)
  with o show ?thesis
    by (simp add: bind_def alloc_def h2 physical)
qed

lemma read_append:
  "read_points h a = Inr ps \<Longrightarrow> read_points (h @ xs) a = Inr ps"
  "read_vector h a = Inr v \<Longrightarrow> read_vector (h @ xs) a = Inr v"
  "read_array3 h a = Inr m \<Longrightarrow> read_array3 (h @ xs) a = Inr m"
  by (auto simp: read_points_Inr read_vector_Inr read_array3_Inr nth_append)

lemma perform_heap_refines:
  assumes run: "perform_heap affine_points_fit self h = Inr (res, h')"
    and abs: "FFD_of self h = Inr ffd"
  shows "\<exists>out. perform affine_points_fit ffd = Inr out \<and> h' ! res = Points out"
proof -
  let ?P = "parameters_ref self"
  let ?n = "length h"
  from abs have "\<exists>origin v1 v2 v3 mx my mz mesh.
      read_vector h (origin_box_ref ?P) = Inr origin \<and>
      read_vector h (position_vertex_1_ref ?P) = Inr v1 \<and>
      read_vector h (position_vertex_2_ref ?P) = Inr v2 \<and>
      read_vector h (position_vertex_3_ref ?P) = Inr v3 \<and>
      read_array3 h (array_mu_x_ref ?P) = Inr mx \<and>
      read_array3 h (array_mu_y_ref ?P) = Inr my \<and>
      read_array3 h (array_mu_z_ref ?P) = Inr mz \<and>
      read_points h (original_mesh_points_ref self) = Inr mesh \<and>
      ffd = \<lparr>parameters =
               \<lparr>origin_box = origin, position_vertex_1 = v1, position_vertex_2 = v2,
                position_vertex_3 = v3, array_mu_x = mx, array_mu_y = my, array_mu_z = mz\<rparr>,
             original_mesh_points = mesh\<rparr>"
    unfolding FFD_of_def Let_def bind_Inr by blast
  then obtain origin v1 v2 v3 mx my mz mesh where
    rd: "read_vector h (origin_box_ref ?P) = Inr origin"
      "read_vector h (position_vertex_1_ref ?P) = Inr v1"
      "read_vector h (position_vertex_2_ref ?P) = Inr v2"
      "read_vector h (position_vertex_3_ref ?P) = Inr v3"
      "read_array3 h (array_mu_x_ref ?P) = Inr mx"
      "read_array3 h (array_mu_y_ref ?P) = Inr my"
      "read_array3 h (array_mu_z_ref ?P) = Inr mz"
      "read_points h (original_mesh_points_ref self) = Inr mesh"
    and ffd: "ffd = \<lparr>parameters =
               \<lparr>origin_box = origin, position_vertex_1 = v1, position_vertex_2 = v2,
                position_vertex_3 = v3, array_mu_x = mx, array_mu_y = my, array_mu_z = mz\<rparr>,
             original_mesh_points = mesh\<rparr>"
    by blast
  obtain dn dm dt where dims: "shape mx = (dn, dm, dt)" by (cases "shape mx") auto
  have fr: "fisical_frame_heap ?P h = Inr (fisical_frame (parameters ffd))"
    by (simp add: fisical_frame_heap_def fisical_frame_def Let_def rd bind_def ffd)
  let ?tr = "map (\<lambda>p. psub p origin) mesh"
  let ?h1 = "h @ [Columns (replicate dn (replicate (length mesh) 0)),
                  Columns (replicate dm (replicate (length mesh) 0)),
                  Columns (replicate dt (replicate (length mesh) 0)),
                  Points (replicate (length mesh) (0, 0, 0))]"
  let ?h2 = "h @ [Columns (replicate dn (replicate (length mesh) 0)),
                  Columns (replicate dm (replicate (length mesh) 0)),
                  Columns (replicate dt (replicate (length mesh) 0)),
                  Points (replicate (length mesh) (0, 0, 0)), Points ?tr]"
  have al: "allocate_heap (length mesh) (dn, dm, dt) h =
      ((?n, Suc ?n, Suc (Suc ?n), Suc (Suc (Suc ?n))), ?h1)"
    by (simp add: allocate_heap_def alloc_def)
  have tr: "translated_heap (original_mesh_points_ref self) (origin_box_ref ?P) ?h1 =
      Inr (Suc (Suc (Suc (Suc ?n))), ?h2)"
    by (simp add: translated_heap_def read_append(1)[OF rd(8)] read_append(2)[OF rd(1)] bind_def alloc_def)
  from run have "\<exists>T Tinv rf h3 h4.
      affine_points_fit (fisical_frame (parameters ffd)) reference_frame = Inr T \<and>
      affine_points_fit reference_frame (fisical_frame (parameters ffd)) = Inr Tinv \<and>
      transform_points_heap (Suc (Suc (Suc (Suc ?n)))) T ?h2 = Inr (rf, h3) \<and>
      deform_heap ?P (length mesh) (dn, dm, dt) ?n (Suc ?n) (Suc (Suc ?n)) (Suc (Suc (Suc ?n)))
        rf h3 = Inr h4 \<and>
      return_heap (origin_box_ref ?P) (Suc (Suc (Suc ?n))) rf Tinv h4 = Inr (res, h')"
    unfolding perform_heap_def Let_def
    by (simp add: bind_Inr rd fr al tr dims)
  then obtain T Tinv rf h3 h4 where
    T: "affine_points_fit (fisical_frame (parameters ffd)) reference_frame = Inr T"
    and Tinv: "affine_points_fit reference_frame (fisical_frame (parameters ffd)) = Inr Tinv"
    and tp: "transform_points_heap (Suc (Suc (Suc (Suc ?n)))) T ?h2 = Inr (rf, h3)"
    and de: "deform_heap ?P (length mesh) (dn, dm, dt) ?n (Suc ?n) (Suc (Suc ?n))
               (Suc (Suc (Suc ?n))) rf h3 = Inr h4"
    and re: "return_heap (origin_box_ref ?P) (Suc (Suc (Suc ?n))) rf Tinv h4 = Inr (res, h')"
    by blast
  let ?r = "transform_points ?tr T"
  have "read_points ?h2 (Suc (Suc (Suc (Suc ?n)))) = Inr ?tr"
    by (simp add: read_points_Inr nth_append)
  from transform_points_heap_exact[OF tp this]
  have rf: "rf = ?n + 5"
    and h3: "h3 = h @ [Columns (replicate dn (replicate (length mesh) 0)),
                  Columns (replicate dm (replicate (length mesh) 0)),
                  Columns (replicate dt (replicate (length mesh) 0)),
                  Points (replicate (length mesh) (0, 0, 0)), Points ?tr, Points ?r]"
    by simp_all
  have lr: "length ?r = length mesh" by (simp add: transform_points_map)
  have mu: "read_array3 h (array_mu_x_ref ?P) = Inr (array_mu_x (parameters ffd))"
    "read_array3 h (array_mu_y_ref ?P) = Inr (array_mu_y (parameters ffd))"
    "read_array3 h (array_mu_z_ref ?P) = Inr (array_mu_z (parameters ffd))"
    by (simp_all add: rd ffd)
  from de have de': "deform_heap ?P (length ?r) (dn, dm, dt) ?n (Suc ?n) (Suc (Suc ?n))
      (Suc (Suc (Suc ?n))) (?n + 5)
      (h @ [Columns (replicate dn (replicate (length mesh) 0)),
            Columns (replicate dm (replicate (length mesh) 0)),
            Columns (replicate dt (replicate (length mesh) 0)),
            Points (replicate (length mesh) (0, 0, 0)), Points ?tr, Points ?r]) = Inr h4"
    by (simp only: lr rf h3)
  from deform_heap_exact[OF de' _ _ _ mu] obtain s' where
    loops: "for_range [0..<dn] (\<lambda>i. for_range [0..<dm] (\<lambda>j. for_range [0..<dt] (\<lambda>k.
              accumulate (parameters ffd) (bernstein_columns dn (column 0 ?r))
                (bernstein_columns dm (column 1 ?r)) (bernstein_columns dt (column 2 ?r)) i j k)))
              (replicate (length mesh) (0, 0, 0)) = Inr s'"
    and h4: "h4 = h @ [Columns (bernstein_columns dn (column 0 ?r)),
                       Columns (bernstein_columns dm (column 1 ?r)),
                       Columns (bernstein_columns dt (column 2 ?r)),
                       Points (split_inside_outside ?r s'), Points ?tr, Points ?r]"
    by auto
  have r1: "read_points h4 (Suc (Suc (Suc ?n))) = Inr (split_inside_outside ?r s')"
    by (simp add: h4 read_points_Inr nth_append)
  have r2: "read_points h4 rf = Inr ?r"
    by (simp add: h4 rf read_points_Inr nth_append)
  have r3: "read_vector h4 (origin_box_ref ?P) = Inr origin"
    unfolding h4 by (rule read_append(2)[OF rd(1)])
  from return_heap_exact[OF re r1 r2 r3]
  have out: "h' ! res = Points (map (\<lambda>p. padd p origin)
      (transform_points (map2 padd (split_inside_outside ?r s') ?r) Tinv))"
    by (simp add: h4 nth_append)
  have "perform affine_points_fit ffd = Inr (map (\<lambda>p. padd p origin)
      (transform_points (map2 padd (split_inside_outside ?r s') ?r) Tinv))"
    using T Tinv loops unfolding perform_def Let_def
    by (simp add: ffd dims)
  with out show ?thesis by blast
qed

lemma sample_heap_abstraction: "FFD_of sample_ref sample_heap = Inr sample"
  by (simp add: FFD_of_def sample_ref_def sample_heap_def sample_def bind_def
      read_vector_def read_array3_def read_points_def)

section \<open>Properties of \<open>VFFD.__call__\<close>\<close>

lemma for_range_3:
  assumes "for_range [0..<3] body s = Inr s3"
  shows "\<exists>s1 s2. body 0 s = Inr s1 \<and> body 1 s1 = Inr s2 \<and> body 2 s2 = Inr s3"
proof -
  have "[0..<3] = [0, 1, 2]" by (simp add: upt_rec)
  with assms have "for_range [0, 1, 2] body s = Inr s3" by simp
  then show ?thesis by (auto split: sum.splits)
qed

lemma for_range_3_Inr:
  assumes "body 0 s = Inr s1" "body 1 s1 = Inr s2" "body 2 s2 = Inr s3"
  shows "for_range [0..<3] body s = Inr s3"
proof -
  have "[0..<3] = [0, 1, 2]" by (simp add: upt_rec)
  with assms show ?thesis by simp
qed

lemma axis_pass_Inr:
  assumes "axis_pass ffd func CFFD_call d indexes src_pts i self = Inr self'"
  shows "\<exists>deformed vol w pts.
           ffd (array_mu self) src_pts = Inr deformed \<and> func deformed = Inr vol \<and>
           getitem (vweight self) i = Inr w \<and>
           CFFD_call (indexes ! i) (eye (length (indexes ! i))) (vol + w * d) (array_mu self) src_pts
             = Inr (pts, array_mu self') \<and>
           self' = self\<lparr>indices := indexes ! i, M := eye (length (indexes ! i)),
                         fixval := vol + w * d, array_mu := array_mu self'\<rparr>"
  using assms unfolding axis_pass_def Let_def
  by (auto split: sum.splits prod.splits)

lemma VFFD_call_Inr:
  assumes "VFFD_call ffd func CFFD_call self src_pts = Inr (tmp, self')"
  shows "\<exists>deformed vol self2 mu.
           ffd (array_mu self) src_pts = Inr deformed \<and> func deformed = Inr vol \<and>
           for_range [0..<3]
             (axis_pass ffd func CFFD_call (fixval self - vol)
                [filter (\<lambda>n. n mod 3 = 0) (indices self),
                 filter (\<lambda>n. n mod 3 = 1) (indices self),
                 filter (\<lambda>n. n mod 3 = 2) (indices self)] src_pts)
             (self\<lparr>vweight := normalized (vweight self)\<rparr>) = Inr self2 \<and>
           CFFD_call (indices self2) (M self2) (fixval self2) (array_mu self2) src_pts = Inr (tmp, mu) \<and>
           self' = self2\<lparr>array_mu := mu, indices := indices self\<rparr>"
  using assms unfolding VFFD_call_def Let_def
  by (auto split: sum.splits prod.splits)

lemmas toy_defs = toy_def toy_src_def toy_ffd_def toy_corrector_def shift_x_def
  VFFD_call_def axis_pass_def normalized_def getitem_def det3_def eye_def Let_def

lemma toy_run:
  "VFFD_call toy_ffd (volume [(0, 1, 2)]) toy_corrector toy toy_src
     = Inr ([(4, 0, 0), (3, 1, 0), (3, 0, 1)], toy_after)"
  by (simp add: toy_defs toy_after_def upt_rec)

lemma getitem_Inr: "getitem xs i = Inr w \<Longrightarrow> i < length xs \<and> w = xs ! i"
  by (auto simp: getitem_def split: if_splits)

lemma VFFD_trace:
  assumes "VFFD_call ffd func CFFD_call self src_pts = Inr (tmp, self')"
  shows "\<exists>v0 vol0 vx volx px mu1 vy voly py mu2 vz volz pz mu3 mu4.
      ffd (array_mu self) src_pts = Inr v0 \<and> func v0 = Inr vol0 \<and>
      3 \<le> length (vweight self) \<and>
      ffd (array_mu self) src_pts = Inr vx \<and> func vx = Inr volx \<and>
      CFFD_call (filter (\<lambda>n. n mod 3 = 0) (indices self))
        (eye (length (filter (\<lambda>n. n mod 3 = 0) (indices self))))
        (volx + normalized (vweight self) ! 0 * (fixval self - vol0))
        (array_mu self) src_pts = Inr (px, mu1) \<and>
      ffd mu1 src_pts = Inr vy \<and> func vy = Inr voly \<and>
      CFFD_call (filter (\<lambda>n. n mod 3 = 1) (indices self))
        (eye (length (filter (\<lambda>n. n mod 3 = 1) (indices self))))
        (voly + normalized (vweight self) ! 1 * (fixval self - vol0))
        mu1 src_pts = Inr (py, mu2) \<and>
      ffd mu2 src_pts = Inr vz \<and> func vz = Inr volz \<and>
      CFFD_call (filter (\<lambda>n. n mod 3 = 2) (indices self))
        (eye (length (filter (\<lambda>n. n mod 3 = 2) (indices self))))
        (volz + normalized (vweight self) ! 2 * (fixval self - vol0))
        mu2 src_pts = Inr (pz, mu3) \<and>
      CFFD_call (filter (\<lambda>n. n mod 3 = 2) (indices self))
        (eye (length (filter (\<lambda>n. n mod 3 = 2) (indices self))))
        (volz + normalized (vweight self) ! 2 * (fixval self - vol0))
        mu3 src_pts = Inr (tmp, mu4) \<and>
      self' = self\<lparr>vweight := normalized (vweight self),
                    indices := indices self,
                    M := eye (length (filter (\<lambda>n. n mod 3 = 2) (indices self))),
                    fixval := volz + normalized (vweight self) ! 2 * (fixval self - vol0),
                    array_mu := mu4\<rparr>"
proof -
  let ?ix = "filter (\<lambda>n. n mod 3 = 0) (indices self)"
  let ?iy = "filter (\<lambda>n. n mod 3 = 1) (indices self)"
  let ?iz = "filter (\<lambda>n. n mod 3 = 2) (indices self)"
  let ?w = "normalized (vweight self)"
  let ?s0 = "self\<lparr>vweight := ?w\<rparr>"
  from VFFD_call_Inr[OF assms] obtain v0 vol0 self2 mu4 where
    v0: "ffd (array_mu self) src_pts = Inr v0" and vol0: "func v0 = Inr vol0"
    and loop: "for_range [0..<3]
        (axis_pass ffd func CFFD_call (fixval self - vol0) [?ix, ?iy, ?iz] src_pts) ?s0 = Inr self2"
    and final: "CFFD_call (indices self2) (M self2) (fixval self2) (array_mu self2) src_pts
        = Inr (tmp, mu4)"
    and self': "self' = self2\<lparr>array_mu := mu4, indices := indices self\<rparr>"
    by blast
  let ?d = "fixval self - vol0"
  let ?body = "axis_pass ffd func CFFD_call ?d [?ix, ?iy, ?iz] src_pts"
  from for_range_3[OF loop] obtain s1 s2 where
    p0: "?body 0 ?s0 = Inr s1" and p1: "?body 1 s1 = Inr s2" and p2: "?body 2 s2 = Inr self2"
    by blast
  from axis_pass_Inr[OF p0] obtain vx volx w0 px where
    x: "ffd (array_mu ?s0) src_pts = Inr vx" "func vx = Inr volx" "getitem (vweight ?s0) 0 = Inr w0"
      "CFFD_call ?ix (eye (length ?ix)) (volx + w0 * ?d) (array_mu ?s0) src_pts = Inr (px, array_mu s1)"
    and s1: "s1 = ?s0\<lparr>indices := ?ix, M := eye (length ?ix), fixval := volx + w0 * ?d,
               array_mu := array_mu s1\<rparr>"
    by auto
  from axis_pass_Inr[OF p1] obtain vy voly w1 py where
    y: "ffd (array_mu s1) src_pts = Inr vy" "func vy = Inr voly" "getitem (vweight s1) 1 = Inr w1"
      "CFFD_call ?iy (eye (length ?iy)) (voly + w1 * ?d) (array_mu s1) src_pts = Inr (py, array_mu s2)"
    and s2: "s2 = s1\<lparr>indices := ?iy, M := eye (length ?iy), fixval := voly + w1 * ?d,
               array_mu := array_mu s2\<rparr>"
    by auto
  from axis_pass_Inr[OF p2] obtain vz volz w2 pz where
    z: "ffd (array_mu s2) src_pts = Inr vz" "func vz = Inr volz" "getitem (vweight s2) 2 = Inr w2"
      "CFFD_call ?iz (eye (length ?iz)) (volz + w2 * ?d) (array_mu s2) src_pts = Inr (pz, array_mu self2)"
    and s3: "self2 = s2\<lparr>indices := ?iz, M := eye (length ?iz), fixval := volz + w2 * ?d,
               array_mu := array_mu self2\<rparr>"
    by auto
  have vw1: "vweight s1 = ?w" by (subst s1) simp
  have vw2: "vweight s2 = ?w" by (subst s2) (simp add: vw1)
  have w0: "w0 = ?w ! 0" using getitem_Inr[OF x(3)] by simp
  have w1: "w1 = ?w ! 1" using getitem_Inr[OF y(3)] by (simp add: vw1)
  have w2: "w2 = ?w ! 2" and len: "2 < length ?w" using getitem_Inr[OF z(3)] by (simp_all add: vw2)
  have len3: "3 \<le> length (vweight self)" using len by (simp add: normalized_def)
  have i3: "indices self2 = ?iz" by (subst s3) simp
  have m3: "M self2 = eye (length ?iz)" by (subst s3) simp
  have f3: "fixval self2 = volz + ?w ! 2 * ?d" by (subst s3) (simp add: w2)
  have self2_eq: "self2 = self\<lparr>vweight := ?w, indices := ?iz, M := eye (length ?iz),
        fixval := volz + ?w ! 2 * ?d, array_mu := array_mu self2\<rparr>"
    by (subst s3, subst s2, subst s1) (simp add: w2)
  have final': "CFFD_call ?iz (eye (length ?iz)) (volz + ?w ! 2 * ?d) (array_mu self2) src_pts
      = Inr (tmp, mu4)"
    using final by (simp only: i3 m3 f3)
  have self'_eq: "self' = self\<lparr>vweight := ?w, indices := indices self, M := eye (length ?iz),
        fixval := volz + ?w ! 2 * ?d, array_mu := mu4\<rparr>"
    by (subst self', subst self2_eq) simp
  from x have x': "ffd (array_mu self) src_pts = Inr vx"
    "CFFD_call ?ix (eye (length ?ix)) (volx + ?w ! 0 * ?d) (array_mu self) src_pts = Inr (px, array_mu s1)"
    by (simp_all add: w0)
  from y have y': "CFFD_call ?iy (eye (length ?iy)) (voly + ?w ! 1 * ?d) (array_mu s1) src_pts
      = Inr (py, array_mu s2)"
    by (simp add: w1)
  from z have z': "CFFD_call ?iz (eye (length ?iz)) (volz + ?w ! 2 * ?d) (array_mu s2) src_pts
      = Inr (pz, array_mu self2)"
    by (simp add: w2)
  show ?thesis
    using v0 vol0 len3 x'(1) x(2) x'(2) y(1) y(2) y' z(1) z(2) z' final' self'_eq
    by blast
qed

text \<open>
  Claim C1 says that the final invocation of the corrector sees the controlled indices
  restored to their original set. With a corrector that logs the index set of every
  invocation, the log of a call on the indices 0 to 5 is the \<open>x\<close> group, the \<open>y\<close> group,
  the \<open>z\<close> group and the \<open>z\<close> group again: the final invocation sees the \<open>z\<close> group.
\<close>

theorem final_call_counterexample:
  "VFFD_call toy_ffd (volume [(0, 1, 2)]) toy_corrector toy toy_src
     = Inr ([(4, 0, 0), (3, 1, 0), (3, 0, 1)], toy_after) \<and>
   snd (array_mu toy_after) = [[0, 3], [1, 4], [2, 5], [2, 5]] \<and>
   indices toy = [0, 1, 2, 3, 4, 5] \<and>
   last (snd (array_mu toy_after)) \<noteq> indices toy"
  using toy_run by (simp add: toy_after_def toy_def)

text \<open>
  Claim C1, as the code has it. When the call returns, the three passes have completed in a
  state whose controlled indices are the \<open>z\<close> group; the corrector is invoked once more in
  that very state, the points of that invocation are the result, and the controlled indices
  are set back to their original value after it.
\<close>

theorem final_call_after_passes:
  assumes "VFFD_call ffd func CFFD_call self src_pts = Inr (tmp, self')"
  shows "\<exists>deformed vol self2 mu.
           ffd (array_mu self) src_pts = Inr deformed \<and> func deformed = Inr vol \<and>
           for_range [0..<3]
             (axis_pass ffd func CFFD_call (fixval self - vol)
                [filter (\<lambda>n. n mod 3 = 0) (indices self),
                 filter (\<lambda>n. n mod 3 = 1) (indices self),
                 filter (\<lambda>n. n mod 3 = 2) (indices self)] src_pts)
             (self\<lparr>vweight := normalized (vweight self)\<rparr>) = Inr self2 \<and>
           indices self2 = filter (\<lambda>n. n mod 3 = 2) (indices self) \<and>
           CFFD_call (indices self2) (M self2) (fixval self2) (array_mu self2) src_pts = Inr (tmp, mu) \<and>
           self' = self2\<lparr>array_mu := mu, indices := indices self\<rparr>"
proof -
  let ?iz = "filter (\<lambda>n. n mod 3 = 2) (indices self)"
  from VFFD_call_Inr[OF assms] obtain deformed vol self2 mu where
    a: "ffd (array_mu self) src_pts = Inr deformed" "func deformed = Inr vol"
    and loop: "for_range [0..<3]
             (axis_pass ffd func CFFD_call (fixval self - vol)
                [filter (\<lambda>n. n mod 3 = 0) (indices self),
                 filter (\<lambda>n. n mod 3 = 1) (indices self), ?iz] src_pts)
             (self\<lparr>vweight := normalized (vweight self)\<rparr>) = Inr self2"
    and b: "CFFD_call (indices self2) (M self2) (fixval self2) (array_mu self2) src_pts = Inr (tmp, mu)"
      "self' = self2\<lparr>array_mu := mu, indices := indices self\<rparr>"
    by blast
  from for_range_3[OF loop] obtain s2 where
    "axis_pass ffd func CFFD_call (fixval self - vol)
       [filter (\<lambda>n. n mod 3 = 0) (indices self), filter (\<lambda>n. n mod 3 = 1) (indices self), ?iz]
       src_pts 2 s2 = Inr self2"
    by blast
  from axis_pass_Inr[OF this] obtain t where
    eq: "self2 = s2\<lparr>indices := ?iz, M := eye (length ?iz), fixval := t, array_mu := array_mu self2\<rparr>"
    by auto
  have "indices self2 = ?iz" by (subst eq) simp
  with a loop b show ?thesis by blast
qed

theorem final_call_after_passes_witness:
  "VFFD_call toy_ffd (volume [(0, 1, 2)]) toy_corrector toy toy_src
     = Inr ([(4, 0, 0), (3, 1, 0), (3, 0, 1)], toy_after) \<and>
   (\<exists>deformed vol self2 mu.
      toy_ffd (array_mu toy) toy_src = Inr deformed \<and> volume [(0, 1, 2)] deformed = Inr vol \<and>
      for_range [0..<3]
        (axis_pass toy_ffd (volume [(0, 1, 2)]) toy_corrector (fixval toy - vol)
           [filter (\<lambda>n. n mod 3 = 0) (indices toy),
            filter (\<lambda>n. n mod 3 = 1) (indices toy),
            filter (\<lambda>n. n mod 3 = 2) (indices toy)] toy_src)
        (toy\<lparr>vweight := normalized (vweight toy)\<rparr>) = Inr self2 \<and>
      indices self2 = filter (\<lambda>n. n mod 3 = 2) (indices toy) \<and>
      toy_corrector (indices self2) (M self2) (fixval self2) (array_mu self2) toy_src
        = Inr ([(4, 0, 0), (3, 1, 0), (3, 0, 1)], mu) \<and>
      toy_after = self2\<lparr>array_mu := mu, indices := indices toy\<rparr>)"
  using toy_run final_call_after_passes[OF toy_run] by blast

text \<open>
  Claim C2. The deficit \<open>fixval - vol0\<close> is taken once, from the displacement arrays as they
  are on entry. For each axis in the order \<open>x\<close>, \<open>y\<close>, \<open>z\<close> the target handed to the
  corrector is the volume of the deformation under the arrays the preceding passes left, plus
  the normalized weight of the axis times that same deficit. (A weight vector whose absolute
  values sum to zero makes the program divide zero by zero; the statement leaves it out.)
\<close>

theorem local_targets:
  assumes "VFFD_call ffd func CFFD_call self src_pts = Inr (tmp, self')"
    and "sum_list (map abs (vweight self)) \<noteq> 0"
  shows "\<exists>v0 vol0 vx volx px mu1 vy voly py mu2 vz volz pz mu3.
      ffd (array_mu self) src_pts = Inr v0 \<and> func v0 = Inr vol0 \<and>
      ffd (array_mu self) src_pts = Inr vx \<and> func vx = Inr volx \<and>
      CFFD_call (filter (\<lambda>n. n mod 3 = 0) (indices self))
        (eye (length (filter (\<lambda>n. n mod 3 = 0) (indices self))))
        (volx + \<bar>vweight self ! 0\<bar> / sum_list (map abs (vweight self)) * (fixval self - vol0))
        (array_mu self) src_pts = Inr (px, mu1) \<and>
      ffd mu1 src_pts = Inr vy \<and> func vy = Inr voly \<and>
      CFFD_call (filter (\<lambda>n. n mod 3 = 1) (indices self))
        (eye (length (filter (\<lambda>n. n mod 3 = 1) (indices self))))
        (voly + \<bar>vweight self ! 1\<bar> / sum_list (map abs (vweight self)) * (fixval self - vol0))
        mu1 src_pts = Inr (py, mu2) \<and>
      ffd mu2 src_pts = Inr vz \<and> func vz = Inr volz \<and>
      CFFD_call (filter (\<lambda>n. n mod 3 = 2) (indices self))
        (eye (length (filter (\<lambda>n. n mod 3 = 2) (indices self))))
        (volz + \<bar>vweight self ! 2\<bar> / sum_list (map abs (vweight self)) * (fixval self - vol0))
        mu2 src_pts = Inr (pz, mu3)"
proof -
  from VFFD_trace[OF assms(1)] obtain v0 vol0 vx volx px mu1 vy voly py mu2 vz volz pz mu3 where
    t: "ffd (array_mu self) src_pts = Inr v0" "func v0 = Inr vol0"
      "3 \<le> length (vweight self)"
      "ffd (array_mu self) src_pts = Inr vx" "func vx = Inr volx"
      "CFFD_call (filter (\<lambda>n. n mod 3 = 0) (indices self))
        (eye (length (filter (\<lambda>n. n mod 3 = 0) (indices self))))
        (volx + normalized (vweight self) ! 0 * (fixval self - vol0))
        (array_mu self) src_pts = Inr (px, mu1)"
      "ffd mu1 src_pts = Inr vy" "func vy = Inr voly"
      "CFFD_call (filter (\<lambda>n. n mod 3 = 1) (indices self))
        (eye (length (filter (\<lambda>n. n mod 3 = 1) (indices self))))
        (voly + normalized (vweight self) ! 1 * (fixval self - vol0))
        mu1 src_pts = Inr (py, mu2)"
      "ffd mu2 src_pts = Inr vz" "func vz = Inr volz"
      "CFFD_call (filter (\<lambda>n. n mod 3 = 2) (indices self))
        (eye (length (filter (\<lambda>n. n mod 3 = 2) (indices self))))
        (volz + normalized (vweight self) ! 2 * (fixval self - vol0))
        mu2 src_pts = Inr (pz, mu3)"
    by blast
  have w: "normalized (vweight self) ! i = \<bar>vweight self ! i\<bar> / sum_list (map abs (vweight self))"
    if "i < 3" for i
    using that t(3) by (simp add: normalized_def)
  from t(6,9,12) have
    "CFFD_call (filter (\<lambda>n. n mod 3 = 0) (indices self))
        (eye (length (filter (\<lambda>n. n mod 3 = 0) (indices self))))
        (volx + \<bar>vweight self ! 0\<bar> / sum_list (map abs (vweight self)) * (fixval self - vol0))
        (array_mu self) src_pts = Inr (px, mu1)"
    "CFFD_call (filter (\<lambda>n. n mod 3 = 1) (indices self))
        (eye (length (filter (\<lambda>n. n mod 3 = 1) (indices self))))
        (voly + \<bar>vweight self ! 1\<bar> / sum_list (map abs (vweight self)) * (fixval self - vol0))
        mu1 src_pts = Inr (py, mu2)"
    "CFFD_call (filter (\<lambda>n. n mod 3 = 2) (indices self))
        (eye (length (filter (\<lambda>n. n mod 3 = 2) (indices self))))
        (volz + \<bar>vweight self ! 2\<bar> / sum_list (map abs (vweight self)) * (fixval self - vol0))
        mu2 src_pts = Inr (pz, mu3)"
    by (simp_all add: w)
  with t(1,2,4,5,7,8,10,11) show ?thesis by blast
qed

text \<open>
  Claim C8. On return the controlled indices are those of entry; the axis weights are their
  absolute values divided by the sum of the absolute values; the weight matrix and the target
  are those of the \<open>z\<close> pass, the ones the last pass and the final invocation used.
\<close>

theorem state_on_return:
  assumes "VFFD_call ffd func CFFD_call self src_pts = Inr (tmp, self')"
    and "sum_list (map abs (vweight self)) \<noteq> 0"
  shows "indices self' = indices self \<and>
         vweight self' = map (\<lambda>a. \<bar>a\<bar> / sum_list (map abs (vweight self))) (vweight self) \<and>
         M self' = eye (length (filter (\<lambda>n. n mod 3 = 2) (indices self))) \<and>
         (\<exists>mu2 pz mu3.
            CFFD_call (filter (\<lambda>n. n mod 3 = 2) (indices self)) (M self') (fixval self') mu2 src_pts
              = Inr (pz, mu3) \<and>
            CFFD_call (filter (\<lambda>n. n mod 3 = 2) (indices self)) (M self') (fixval self') mu3 src_pts
              = Inr (tmp, array_mu self'))"
proof -
  let ?iz = "filter (\<lambda>n. n mod 3 = 2) (indices self)"
  from VFFD_trace[OF assms(1)] obtain t mu2 pz mu3 mu4 where
    z: "CFFD_call ?iz (eye (length ?iz)) t mu2 src_pts = Inr (pz, mu3)"
    and f: "CFFD_call ?iz (eye (length ?iz)) t mu3 src_pts = Inr (tmp, mu4)"
    and s: "self' = self\<lparr>vweight := normalized (vweight self), indices := indices self,
                    M := eye (length ?iz), fixval := t, array_mu := mu4\<rparr>"
    by blast
  have sel: "indices self' = indices self" "vweight self' = normalized (vweight self)"
    "M self' = eye (length ?iz)" "fixval self' = t" "array_mu self' = mu4"
    by (subst s, simp)+
  from z f sel show ?thesis
    by (auto simp: normalized_def)
qed

theorem local_targets_witness:
  "VFFD_call toy_ffd (volume [(0, 1, 2)]) toy_corrector toy toy_src
     = Inr ([(4, 0, 0), (3, 1, 0), (3, 0, 1)], toy_after) \<and>
   sum_list (map abs (vweight toy)) \<noteq> 0 \<and>
   (\<exists>v0 vol0 vx volx px mu1 vy voly py mu2 vz volz pz mu3.
      toy_ffd (array_mu toy) toy_src = Inr v0 \<and> volume [(0, 1, 2)] v0 = Inr vol0 \<and>
      toy_ffd (array_mu toy) toy_src = Inr vx \<and> volume [(0, 1, 2)] vx = Inr volx \<and>
      toy_corrector (filter (\<lambda>n. n mod 3 = 0) (indices toy))
        (eye (length (filter (\<lambda>n. n mod 3 = 0) (indices toy))))
        (volx + \<bar>vweight toy ! 0\<bar> / sum_list (map abs (vweight toy)) * (fixval toy - vol0))
        (array_mu toy) toy_src = Inr (px, mu1) \<and>
      toy_ffd mu1 toy_src = Inr vy \<and> volume [(0, 1, 2)] vy = Inr voly \<and>
      toy_corrector (filter (\<lambda>n. n mod 3 = 1) (indices toy))
        (eye (length (filter (\<lambda>n. n mod 3 = 1) (indices toy))))
        (voly + \<bar>vweight toy ! 1\<bar> / sum_list (map abs (vweight toy)) * (fixval toy - vol0))
        mu1 toy_src = Inr (py, mu2) \<and>
      toy_ffd mu2 toy_src = Inr vz \<and> volume [(0, 1, 2)] vz = Inr volz \<and>
      toy_corrector (filter (\<lambda>n. n mod 3 = 2) (indices toy))
        (eye (length (filter (\<lambda>n. n mod 3 = 2) (indices toy))))
        (volz + \<bar>vweight toy ! 2\<bar> / sum_list (map abs (vweight toy)) * (fixval toy - vol0))
        mu2 toy_src = Inr (pz, mu3))"
proof -
  have h: "sum_list (map abs (vweight toy)) \<noteq> 0"
    by (simp add: toy_def)
  show ?thesis
    using toy_run h local_targets[OF toy_run h] by blast
qed

theorem state_on_return_witness:
  "VFFD_call toy_ffd (volume [(0, 1, 2)]) toy_corrector toy toy_src
     = Inr ([(4, 0, 0), (3, 1, 0), (3, 0, 1)], toy_after) \<and>
   sum_list (map abs (vweight toy)) \<noteq> 0 \<and>
   indices toy_after = indices toy \<and>
         vweight toy_after = map (\<lambda>a. \<bar>a\<bar> / sum_list (map abs (vweight toy))) (vweight toy) \<and>
         M toy_after = eye (length (filter (\<lambda>n. n mod 3 = 2) (indices toy))) \<and>
         (\<exists>mu2 pz mu3.
            toy_corrector (filter (\<lambda>n. n mod 3 = 2) (indices toy)) (M toy_after) (fixval toy_after) mu2 toy_src
              = Inr (pz, mu3) \<and>
            toy_corrector (filter (\<lambda>n. n mod 3 = 2) (indices toy)) (M toy_after) (fixval toy_after) mu3 toy_src
              = Inr ([(4, 0, 0), (3, 1, 0), (3, 0, 1)], array_mu toy_after))"
proof -
  have h: "sum_list (map abs (vweight toy)) \<noteq> 0"
    by (simp add: toy_def)
  show ?thesis
    using toy_run h state_on_return[OF toy_run h] by blast
qed

end
